theory Spec2Isabelle
  imports Main "HOL-Library.Word"
begin

section \<open>clive: a command line application from a decorated struct\<close>

text \<open>
  A shallow embedding of \<^verbatim>\<open>clive.go\<close>. Go strings are byte lists (\<^typ>\<open>string\<close>);
  the separators the code looks for (comma, colon, single quote) are ASCII, so reading
  bytes instead of runes splits at the same places. \<^verbatim>\<open>int\<close> and \<^verbatim>\<open>uint\<close> are taken
  at 64 bits (\<^verbatim>\<open>strconv.IntSize = 64\<close>), \<^verbatim>\<open>time.Duration\<close> is its \<^verbatim>\<open>int64\<close> count
  of nanoseconds. Floating point numbers are an abstract type \<open>'f\<close>.
\<close>

type_synonym int64 = "64 word"
type_synonym uint64 = "64 word"

abbreviation quote :: char where
  "quote \<equiv> CHR 0x27"

subsection \<open>Errors\<close>

text \<open>
  \<^verbatim>\<open>errors.New\<close> and \<^verbatim>\<open>errors.Errorf\<close> give \<open>New\<close> with the formatted message,
  \<^verbatim>\<open>errors.Wrap(err, msg)\<close> gives \<open>Wrap err msg\<close>, \<^verbatim>\<open>strconv\<close>'s \<^verbatim>\<open>*NumError\<close> is
  \<open>NumError\<close>. A panic with a string, or inside \<^verbatim>\<open>reflect\<close>, is \<open>Panic\<close>.
\<close>

datatype num_err = ErrSyntax | ErrRange

datatype error =
    New string
  | Wrap error string
  | NumError string string num_err
  | Panic string

text \<open>
  The text of an error, as \<^verbatim>\<open>Error()\<close> prints it. \<open>Quote\<close> is \<^verbatim>\<open>strconv.Quote\<close>, which
  \<^verbatim>\<open>NumError\<close> puts its input through; it is a parameter.
\<close>

fun Error :: "(string \<Rightarrow> string) \<Rightarrow> error \<Rightarrow> string" where
  "Error Quote (New msg) = msg"
| "Error Quote (Wrap e msg) = msg @ '': '' @ Error Quote e"
| "Error Quote (NumError fn num ErrSyntax) =
     ''strconv.'' @ fn @ '': parsing '' @ Quote num @ '': invalid syntax''"
| "Error Quote (NumError fn num ErrRange) =
     ''strconv.'' @ fn @ '': parsing '' @ Quote num @ '': value out of range''"
| "Error Quote (Panic msg) = msg"

subsection \<open>The functions of \<^verbatim>\<open>strings\<close> that the code calls\<close>

definition HasPrefix :: "string \<Rightarrow> string \<Rightarrow> bool" where
  "HasPrefix s p = (take (length p) s = p)"

definition TrimPrefix :: "string \<Rightarrow> string \<Rightarrow> string" where
  "TrimPrefix s p = (if HasPrefix s p then drop (length p) s else s)"

text \<open>\<^verbatim>\<open>strings.Trim(s, cutset)\<close>: all leading and trailing bytes of the cutset go.\<close>

definition Trim :: "string \<Rightarrow> string \<Rightarrow> string" where
  "Trim s cutset =
     rev (dropWhile (\<lambda>c. c \<in> set cutset) (rev (dropWhile (\<lambda>c. c \<in> set cutset) s)))"

text \<open>
  \<^verbatim>\<open>strings.SplitN(s, sep, 2)\<close> for a separator of one byte: the string itself when the
  separator does not occur, else the part before its first occurrence and the rest.
\<close>

definition SplitN2 :: "string \<Rightarrow> char \<Rightarrow> string list" where
  "SplitN2 s sep =
     (case dropWhile (\<lambda>c. c \<noteq> sep) s of
        [] \<Rightarrow> [s]
      | _ # rest \<Rightarrow> [takeWhile (\<lambda>c. c \<noteq> sep) s, rest])"

text \<open>
  \<^verbatim>\<open>strings.Split(s, sep)\<close> for a separator of one byte: one more element than there are
  separators, empty elements kept.
\<close>

fun Split :: "string \<Rightarrow> char \<Rightarrow> string list" where
  "Split [] sep = [[]]"
| "Split (c # cs) sep =
     (if c = sep then [] # Split cs sep
      else (case Split cs sep of [] \<Rightarrow> [[c]] | w # ws \<Rightarrow> (c # w) # ws))"

text \<open>
  \<^verbatim>\<open>strings.FieldsFunc(s, f)\<close>: one pass over the string, calling \<open>f\<close> once on each
  element in order; \<open>start\<close> is the field being read, if any. The closure that
  \<^verbatim>\<open>parseMeta\<close> passes has a variable of its own, so \<open>f\<close> takes its state and returns
  the new one.
\<close>

fun FieldsFunc_loop ::
  "('s \<Rightarrow> char \<Rightarrow> bool \<times> 's) \<Rightarrow> 's \<Rightarrow> string option \<Rightarrow> string \<Rightarrow> string list" where
  "FieldsFunc_loop f st start [] = (case start of None \<Rightarrow> [] | Some w \<Rightarrow> [w])"
| "FieldsFunc_loop f st start (r # rs) =
     (case f st r of
        (True, st') \<Rightarrow>
          (case start of
             None \<Rightarrow> FieldsFunc_loop f st' None rs
           | Some w \<Rightarrow> w # FieldsFunc_loop f st' None rs)
      | (False, st') \<Rightarrow>
          (case start of
             None \<Rightarrow> FieldsFunc_loop f st' (Some [r]) rs
           | Some w \<Rightarrow> FieldsFunc_loop f st' (Some (w @ [r])) rs))"

definition FieldsFunc :: "string \<Rightarrow> ('s \<Rightarrow> char \<Rightarrow> bool \<times> 's) \<Rightarrow> 's \<Rightarrow> string list" where
  "FieldsFunc s f st0 = FieldsFunc_loop f st0 None s"

subsection \<open>The functions of \<^verbatim>\<open>strconv\<close> that the code calls\<close>

definition ParseBool :: "string \<Rightarrow> bool \<times> error option" where
  "ParseBool str =
     (if str \<in> set [''1'', ''t'', ''T'', ''TRUE'', ''true'', ''True''] then (True, None)
      else if str \<in> set [''0'', ''f'', ''F'', ''FALSE'', ''false'', ''False''] then (False, None)
      else (False, Some (NumError ''ParseBool'' str ErrSyntax)))"

definition maxUint64 :: nat where
  "maxUint64 = 2 ^ 64 - 1"

definition isDigit :: "char \<Rightarrow> bool" where
  "isDigit c = (c \<in> set ''0123456789'')"

definition digitVal :: "char \<Rightarrow> nat" where
  "digitVal c = of_char c - 48"

text \<open>
  The loop of \<^verbatim>\<open>strconv.ParseUint(s, 10, 64)\<close>: it stops at the first byte that is no
  decimal digit (value 0, syntax error) and at the first overflow (the largest value,
  range error), whichever comes first.
\<close>

fun ParseUint_loop :: "nat \<Rightarrow> string \<Rightarrow> nat \<times> num_err option" where
  "ParseUint_loop n [] = (n, None)"
| "ParseUint_loop n (c # cs) =
     (if \<not> isDigit c then (0, Some ErrSyntax)
      else if n \<ge> maxUint64 div 10 + 1 then (maxUint64, Some ErrRange)
      else if n * 10 + digitVal c > maxUint64 then (maxUint64, Some ErrRange)
      else ParseUint_loop (n * 10 + digitVal c) cs)"

definition ParseUint_nat :: "string \<Rightarrow> nat \<times> num_err option" where
  "ParseUint_nat s = (if s = [] then (0, Some ErrSyntax) else ParseUint_loop 0 s)"

definition ParseUint :: "string \<Rightarrow> uint64 \<times> error option" where
  "ParseUint s =
     (case ParseUint_nat s of
        (n, None) \<Rightarrow> (of_nat n, None)
      | (n, Some e) \<Rightarrow> (of_nat n, Some (NumError ''ParseUint'' s e)))"

text \<open>
  \<^verbatim>\<open>strconv.ParseInt(s, 10, 64)\<close>: a sign, then \<^verbatim>\<open>ParseUint\<close> on the rest; a magnitude
  beyond the signed range gives the nearest bound and a range error.
\<close>

definition ParseInt :: "string \<Rightarrow> int64 \<times> error option" where
  "ParseInt s =
     (if s = [] then (0, Some (NumError ''ParseInt'' s ErrSyntax))
      else
        let neg = (hd s = CHR ''-'');
            s1 = (if hd s = CHR ''+'' \<or> hd s = CHR ''-'' then tl s else s)
        in case ParseUint_nat s1 of
             (un, Some ErrSyntax) \<Rightarrow> (0, Some (NumError ''ParseInt'' s ErrSyntax))
           | (un, _) \<Rightarrow>
               if \<not> neg \<and> un \<ge> 2 ^ 63 then (of_nat (2 ^ 63 - 1), Some (NumError ''ParseInt'' s ErrRange))
               else if neg \<and> un > 2 ^ 63 then (- of_nat (2 ^ 63), Some (NumError ''ParseInt'' s ErrRange))
               else (if neg then - of_nat un else of_nat un, None))"

text \<open>\<^verbatim>\<open>strconv.Atoi(s)\<close> is \<^verbatim>\<open>ParseInt(s, 10, 0)\<close> with the error renamed.\<close>

definition Atoi :: "string \<Rightarrow> int64 \<times> error option" where
  "Atoi s =
     (case ParseInt s of
        (i, Some (NumError fn num e)) \<Rightarrow> (i, Some (NumError ''Atoi'' num e))
      | r \<Rightarrow> r)"

subsection \<open>What the code takes from other packages\<close>

text \<open>
  The case conversions of \<^verbatim>\<open>strcase\<close>, \<^verbatim>\<open>strings.ToLower\<close>, \<^verbatim>\<open>strconv.ParseFloat\<close>
  (with its bit size), \<^verbatim>\<open>time.ParseDuration\<close> and the conversion \<^verbatim>\<open>float32(x)\<close> that
  \<^verbatim>\<open>reflect\<close> applies when it stores into a \<^verbatim>\<open>float32\<close> field are parameters.
\<close>

record 'f lib =
  ToKebab :: "string \<Rightarrow> string"
  ToScreamingSnake :: "string \<Rightarrow> string"
  ToLower :: "string \<Rightarrow> string"
  ParseFloat :: "string \<Rightarrow> nat \<Rightarrow> 'f \<times> error option"
  ParseDuration :: "string \<Rightarrow> int64 \<times> error option"
  float32 :: "'f \<Rightarrow> 'f"

subsection \<open>The data\<close>

text \<open>
  A \<^verbatim>\<open>reflect.StructField\<close>: its name, \<^verbatim>\<open>Type.String()\<close> and \<^verbatim>\<open>Tag.Get("cli")\<close>.
\<close>

record StructField =
  fieldName :: string
  fieldType :: string
  fieldTag :: string

record commandMetadata =
  meta_Name :: string
  meta_Usage :: string
  meta_Hidden :: bool
  meta_Default :: string

text \<open>
  The flag types of \<^verbatim>\<open>urfave/cli\<close> that the code builds, each with its \<^verbatim>\<open>Name\<close>,
  \<^verbatim>\<open>EnvVar\<close>, \<^verbatim>\<open>Value\<close> (the two boolean flags have none), \<^verbatim>\<open>Hidden\<close> and \<^verbatim>\<open>Usage\<close>.
  The value of a slice flag is a pointer: \<open>None\<close> is \<^verbatim>\<open>nil\<close>.
\<close>

datatype 'f Flag =
    IntFlag string string int64 bool string
  | Int64Flag string string int64 bool string
  | UintFlag string string uint64 bool string
  | Uint64Flag string string uint64 bool string
  | Float64Flag string string 'f bool string
  | BoolFlag string string bool string
  | BoolTFlag string string bool string
  | StringFlag string string string bool string
  | DurationFlag string string int64 bool string
  | IntSliceFlag string string "int64 list option" bool string
  | Int64SliceFlag string string "int64 list option" bool string
  | StringSliceFlag string string "string list option" bool string

fun GetName :: "'f Flag \<Rightarrow> string" where
  "GetName (IntFlag n e v h u) = n"
| "GetName (Int64Flag n e v h u) = n"
| "GetName (UintFlag n e v h u) = n"
| "GetName (Uint64Flag n e v h u) = n"
| "GetName (Float64Flag n e v h u) = n"
| "GetName (BoolFlag n e h u) = n"
| "GetName (BoolTFlag n e h u) = n"
| "GetName (StringFlag n e v h u) = n"
| "GetName (DurationFlag n e v h u) = n"
| "GetName (IntSliceFlag n e v h u) = n"
| "GetName (Int64SliceFlag n e v h u) = n"
| "GetName (StringSliceFlag n e v h u) = n"

fun EnvVar :: "'f Flag \<Rightarrow> string" where
  "EnvVar (IntFlag n e v h u) = e"
| "EnvVar (Int64Flag n e v h u) = e"
| "EnvVar (UintFlag n e v h u) = e"
| "EnvVar (Uint64Flag n e v h u) = e"
| "EnvVar (Float64Flag n e v h u) = e"
| "EnvVar (BoolFlag n e h u) = e"
| "EnvVar (BoolTFlag n e h u) = e"
| "EnvVar (StringFlag n e v h u) = e"
| "EnvVar (DurationFlag n e v h u) = e"
| "EnvVar (IntSliceFlag n e v h u) = e"
| "EnvVar (Int64SliceFlag n e v h u) = e"
| "EnvVar (StringSliceFlag n e v h u) = e"

text \<open>
  \<^verbatim>\<open>cli.Command\<close> and \<^verbatim>\<open>cli.App\<close>, with the fields the code reads or writes. An action
  is an \<^verbatim>\<open>interface{}\<close>: \<open>None\<close> is \<^verbatim>\<open>nil\<close>.
\<close>

record ('f, 'a) Command =
  cmd_Name :: string
  cmd_Usage :: string
  cmd_Action :: "'a option"
  cmd_Flags :: "'f Flag list"

record ('f, 'a) App =
  app_Usage :: string
  app_Action :: "'a option"
  app_Flags :: "'f Flag list"
  app_Commands :: "('f, 'a) Command list"

text \<open>
  The values a struct field holds: the kinds that \<^verbatim>\<open>Flags\<close> stores (\<^verbatim>\<open>SetInt\<close>,
  \<^verbatim>\<open>SetUint\<close>, \<^verbatim>\<open>SetFloat\<close>, \<^verbatim>\<open>SetBool\<close>, \<^verbatim>\<open>SetString\<close>, \<^verbatim>\<open>Set\<close> of a slice), an
  embedded \<^verbatim>\<open>cli.Command\<close>, another struct, any other value, and the zero value of a
  type that is none of the flag types.
\<close>

datatype ('f, 'a) val =
    IntVal int64
  | UintVal uint64
  | FloatVal 'f
  | BoolVal bool
  | StringVal string
  | IntSliceVal "int64 list"
  | StringSliceVal "string list"
  | CommandVal "('f, 'a) Command"
  | StructVal string
  | OtherVal string
  | ZeroOf string

text \<open>
  What is passed as \<^verbatim>\<open>interface{}\<close>: \<^verbatim>\<open>nil\<close>, a pointer (\<open>Pointer NilObj\<close> is a nil
  pointer), a struct value with the name of its type (empty for an anonymous struct) and
  its fields in declaration order, or a value that is neither.
\<close>

datatype ('f, 'a) object =
    NilObj
  | Pointer "('f, 'a) object"
  | StructObj string "(StructField \<times> ('f, 'a) val) list"
  | NonStruct string

subsection \<open>\<^verbatim>\<open>parseMeta\<close>\<close>

text \<open>
  The closure given to \<^verbatim>\<open>FieldsFunc\<close>: a single quote flips \<open>quotes\<close>, and a comma
  separates when \<open>quotes\<close>, as just updated, is off.
\<close>

definition parseMeta_sep :: "bool \<Rightarrow> char \<Rightarrow> bool \<times> bool" where
  "parseMeta_sep quotes r =
     (let quotes' =
        (if r = quote \<and> \<not> quotes then True
         else if r = quote \<and> quotes then False
         else quotes)
      in (r = CHR '','' \<and> \<not> quotes', quotes'))"

definition parseMeta_sections :: "string \<Rightarrow> string list" where
  "parseMeta_sections s = FieldsFunc s parseMeta_sep False"

definition empty_commandMetadata :: commandMetadata where
  "empty_commandMetadata =
     \<lparr>meta_Name = [], meta_Usage = [], meta_Hidden = False, meta_Default = []\<rparr>"

text \<open>The loop over the sections; it returns at the first error.\<close>

fun parseMeta_loop :: "commandMetadata \<Rightarrow> string list \<Rightarrow> error + commandMetadata" where
  "parseMeta_loop cmdmeta [] = Inr cmdmeta"
| "parseMeta_loop cmdmeta (section # sections) =
     (case SplitN2 section CHR '':'' of
        [k, v] \<Rightarrow>
          if k = ''name'' then parseMeta_loop (cmdmeta\<lparr>meta_Name := v\<rparr>) sections
          else if k = ''usage'' then
            parseMeta_loop (cmdmeta\<lparr>meta_Usage := Trim v [quote]\<rparr>) sections
          else if k = ''hidden'' then
            (case ParseBool v of
               (b, None) \<Rightarrow> parseMeta_loop (cmdmeta\<lparr>meta_Hidden := b\<rparr>) sections
             | (b, Some err) \<Rightarrow>
                 Inl (Wrap err (''failed to parse '' @ [quote] @ ''hidden'' @ [quote] @ '' as a bool'')))
          else if k = ''default'' then parseMeta_loop (cmdmeta\<lparr>meta_Default := v\<rparr>) sections
          else Inl (New (''unknown command tag: '' @ [quote] @ k @ '':'' @ v @ [quote]))
      | _ \<Rightarrow> Inl (New (''malformed tag: '' @ [quote] @ section @ [quote])))"

definition parseMeta :: "string \<Rightarrow> error + commandMetadata" where
  "parseMeta s = parseMeta_loop empty_commandMetadata (parseMeta_sections s)"

subsection \<open>\<^verbatim>\<open>flagFromType\<close>\<close>

text \<open>The name of the flag, lines 267 to 271, and of its environment variable, line 272.\<close>

definition flagName :: "'f lib \<Rightarrow> string \<Rightarrow> string \<Rightarrow> string" where
  "flagName L fname override =
     (if override \<noteq> [] then ToKebab L override
      else ToKebab L (TrimPrefix fname ''Flag''))"

definition envName :: "'f lib \<Rightarrow> string \<Rightarrow> string" where
  "envName L name = ToScreamingSnake L name"

definition flagFromType :: "'f lib \<Rightarrow> StructField \<Rightarrow> commandMetadata \<Rightarrow> error + 'f Flag" where
  "flagFromType L ft cmdmeta =
     (let name = flagName L (fieldName ft) (meta_Name cmdmeta);
          env = envName L name;
          dflt = Trim (meta_Default cmdmeta) [quote];
          hidden = meta_Hidden cmdmeta;
          usage = meta_Usage cmdmeta;
          t = fieldType ft
      in
        if t = ''int'' then Inr (IntFlag name env (fst (ParseInt dflt)) hidden usage)
        else if t = ''int64'' then Inr (Int64Flag name env (fst (ParseInt dflt)) hidden usage)
        else if t = ''uint'' then Inr (UintFlag name env (fst (ParseUint dflt)) hidden usage)
        else if t = ''uint64'' then Inr (Uint64Flag name env (fst (ParseUint dflt)) hidden usage)
        else if t = ''float32'' then
          Inr (Float64Flag name env (fst (ParseFloat L dflt 32)) hidden usage)
        else if t = ''float64'' then
          Inr (Float64Flag name env (fst (ParseFloat L dflt 64)) hidden usage)
        else if t = ''bool'' then
          (if \<not> fst (ParseBool dflt) then Inr (BoolFlag name env hidden usage)
           else Inr (BoolTFlag name env hidden usage))
        else if t = ''string'' then Inr (StringFlag name env dflt hidden usage)
        else if t = ''time.Duration'' then
          Inr (DurationFlag name env (fst (ParseDuration L dflt)) hidden usage)
        else if t = ''[]int'' then
          Inr (IntSliceFlag name env
                 (if dflt \<noteq> [] then Some (map (\<lambda>s. fst (Atoi s)) (Split dflt CHR '','')) else None)
                 hidden usage)
        else if t = ''[]int64'' then
          Inr (Int64SliceFlag name env
                 (if dflt \<noteq> [] then Some (map (\<lambda>s. fst (Atoi s)) (Split dflt CHR '','')) else None)
                 hidden usage)
        else if t = ''[]string'' then
          Inr (StringSliceFlag name env
                 (if dflt \<noteq> [] then Some (Split dflt CHR '','') else None)
                 hidden usage)
        else Inl (New (''unsupported flag generator type: '' @ t)))"

subsection \<open>\<^verbatim>\<open>getCommand\<close>, \<^verbatim>\<open>commandFromObject\<close> and \<^verbatim>\<open>build\<close>\<close>

definition getCommand ::
  "StructField \<Rightarrow> ('f, 'a) val \<Rightarrow> error + ('f, 'a) Command" where
  "getCommand ft fv =
     (if fieldName ft \<noteq> ''Command'' then
        Inl (New ''first field must be an embedded cli.Command'')
      else
        case fv of
          CommandVal cmd \<Rightarrow>
            (case parseMeta (fieldTag ft) of
               Inl err \<Rightarrow>
                 Inl (Wrap err ''failed to read cmdmeta tag on the embedded cli.Command struct'')
             | Inr cmdmeta \<Rightarrow> Inr (cmd\<lparr>cmd_Usage := meta_Usage cmdmeta, cmd_Flags := []\<rparr>))
        | StructVal tn \<Rightarrow> Inl (New ''failed to cast Command field to a cli.Command object'')
        | _ \<Rightarrow>
            Inl (New ''expected Command field to be a struct (specifically, an embedded cli.Command struct)''))"

text \<open>The loop of \<^verbatim>\<open>commandFromObject\<close> over the fields after the first.\<close>

fun commandFromObject_loop ::
  "'f lib \<Rightarrow> ('f, 'a) Command \<Rightarrow> StructField list \<Rightarrow> error + ('f, 'a) Command" where
  "commandFromObject_loop L command [] = Inr command"
| "commandFromObject_loop L command (ft # fts) =
     (case parseMeta (fieldTag ft) of
        Inl err \<Rightarrow> Inl err
      | Inr cmdmeta \<Rightarrow>
          if HasPrefix (fieldName ft) ''Flag'' then
            (case flagFromType L ft cmdmeta of
               Inl err \<Rightarrow> Inl (Wrap err ''failed to generate flag from struct field'')
             | Inr flag \<Rightarrow>
                 commandFromObject_loop L (command\<lparr>cmd_Flags := cmd_Flags command @ [flag]\<rparr>) fts)
          else commandFromObject_loop L command fts)"

text \<open>The loop that follows pointers down to the value they point to.\<close>

fun deref :: "('f, 'a) object \<Rightarrow> ('f, 'a) object" where
  "deref (Pointer obj) = deref obj"
| "deref obj = obj"

definition commandFromObject :: "'f lib \<Rightarrow> ('f, 'a) object \<Rightarrow> error + ('f, 'a) Command" where
  "commandFromObject L obj =
     (if obj = NilObj then Inl (New ''obj is null'')
      else
        case deref obj of
          NilObj \<Rightarrow> Inl (Panic ''reflect: call of reflect.Value.Type on zero Value'')
        | NonStruct tn \<Rightarrow>
            (if tn = [] then Inl (New ''need a named struct type to determine command name'')
             else Inl (Panic ''reflect: Field of non-struct type''))
        | StructObj tn flds \<Rightarrow>
            (if tn = [] then Inl (New ''need a named struct type to determine command name'')
             else
               case flds of
                 [] \<Rightarrow> Inl (Panic ''reflect: Field index out of bounds'')
               | (ft0, fv0) # rest \<Rightarrow>
                   (case getCommand ft0 fv0 of
                      Inl err \<Rightarrow> Inl err
                    | Inr command \<Rightarrow>
                        commandFromObject_loop L (command\<lparr>cmd_Name := ToLower L tn\<rparr>)
                          (map fst rest)))
        | Pointer obj' \<Rightarrow> Inl (Panic ''unreachable''))"

fun build_loop ::
  "'f lib \<Rightarrow> ('f, 'a) Command list \<Rightarrow> ('f, 'a) object list \<Rightarrow> error + ('f, 'a) Command list" where
  "build_loop L commands [] = Inr commands"
| "build_loop L commands (obj # objs) =
     (case commandFromObject L obj of
        Inl err \<Rightarrow> Inl err
      | Inr command \<Rightarrow> build_loop L (commands @ [command]) objs)"

text \<open>\<open>NewApp\<close> is the application that \<^verbatim>\<open>cli.NewApp()\<close> returns.\<close>

definition build ::
  "'f lib \<Rightarrow> ('f, 'a) App \<Rightarrow> ('f, 'a) object list \<Rightarrow> error + ('f, 'a) App" where
  "build L NewApp objs =
     (case build_loop L [] objs of
        Inl err \<Rightarrow> Inl err
      | Inr commands \<Rightarrow>
          if length commands = 1 then
            Inr (NewApp\<lparr>app_Usage := cmd_Usage (commands ! 0),
                        app_Action := cmd_Action (commands ! 0),
                        app_Flags := cmd_Flags (commands ! 0)\<rparr>)
          else Inr (NewApp\<lparr>app_Commands := commands, app_Flags := []\<rparr>))"

subsection \<open>\<^verbatim>\<open>Flags\<close>\<close>

text \<open>
  The \<^verbatim>\<open>cli.Context\<close>: what each of its readers answers for a flag name.
\<close>

record 'f Context =
  ctx_Int :: "string \<Rightarrow> int64"
  ctx_Int64 :: "string \<Rightarrow> int64"
  ctx_Uint :: "string \<Rightarrow> uint64"
  ctx_Uint64 :: "string \<Rightarrow> uint64"
  ctx_Float64 :: "string \<Rightarrow> 'f"
  ctx_Bool :: "string \<Rightarrow> bool"
  ctx_String :: "string \<Rightarrow> string"
  ctx_Duration :: "string \<Rightarrow> int64"
  ctx_IntSlice :: "string \<Rightarrow> int64 list"
  ctx_Int64Slice :: "string \<Rightarrow> int64 list"
  ctx_StringSlice :: "string \<Rightarrow> string list"

text \<open>
  \<^verbatim>\<open>reflect.New(objType).Elem()\<close>: every field at the zero value of its type.
\<close>

definition zeroValue :: "string \<Rightarrow> ('f, 'a) val" where
  "zeroValue t =
     (if t \<in> set [''int'', ''int64'', ''time.Duration''] then IntVal 0
      else if t \<in> set [''uint'', ''uint64''] then UintVal 0
      else if t = ''bool'' then BoolVal False
      else if t = ''string'' then StringVal []
      else if t \<in> set [''[]int'', ''[]int64''] then IntSliceVal []
      else if t = ''[]string'' then StringSliceVal []
      else ZeroOf t)"

text \<open>\<^verbatim>\<open>genericSliceOf\<close> appends the elements one by one to a new slice.\<close>

definition genericSliceOf :: "'x list \<Rightarrow> 'x list" where
  "genericSliceOf xs = foldl (\<lambda>acc x. acc @ [x]) [] xs"

text \<open>\<^verbatim>\<open>resultValue.FieldByName(name).Set...(v)\<close>: the field of that name gets the value.\<close>

fun setFieldByName ::
  "string \<Rightarrow> ('f, 'a) val \<Rightarrow> (string \<times> ('f, 'a) val) list \<Rightarrow> (string \<times> ('f, 'a) val) list" where
  "setFieldByName name v [] = []"
| "setFieldByName name v ((n, old) # fs) =
     (if n = name then (n, v) # fs else (n, old) # setFieldByName name v fs)"

text \<open>
  The switch of lines 59 to 90: the value that is stored for a type and a flag name,
  \<open>None\<close> in the default case.
\<close>

definition contextValue ::
  "'f lib \<Rightarrow> 'f Context \<Rightarrow> string \<Rightarrow> string \<Rightarrow> ('f, 'a) val option" where
  "contextValue L c t name =
     (if t = ''int'' then Some (IntVal (ctx_Int c name))
      else if t = ''int64'' then Some (IntVal (ctx_Int64 c name))
      else if t = ''uint'' then Some (UintVal (ctx_Uint c name))
      else if t = ''uint64'' then Some (UintVal (ctx_Uint64 c name))
      else if t = ''float32'' then Some (FloatVal (float32 L (ctx_Float64 c name)))
      else if t = ''float64'' then Some (FloatVal (ctx_Float64 c name))
      else if t = ''bool'' then Some (BoolVal (ctx_Bool c name))
      else if t = ''string'' then Some (StringVal (ctx_String c name))
      else if t = ''time.Duration'' then Some (IntVal (ctx_Duration c name))
      else if t = ''[]int'' then Some (IntSliceVal (genericSliceOf (ctx_IntSlice c name)))
      else if t = ''[]int64'' then Some (IntSliceVal (genericSliceOf (ctx_Int64Slice c name)))
      else if t = ''[]string'' then Some (StringSliceVal (genericSliceOf (ctx_StringSlice c name)))
      else None)"

fun Flags_loop ::
  "'f lib \<Rightarrow> 'f Context \<Rightarrow> (string \<times> ('f, 'a) val) list \<Rightarrow> StructField list
     \<Rightarrow> error + (string \<times> ('f, 'a) val) list" where
  "Flags_loop L c resultValue [] = Inr resultValue"
| "Flags_loop L c resultValue (ft # fts) =
     (case parseMeta (fieldTag ft) of
        Inl err \<Rightarrow> Inl err
      | Inr cmdmeta \<Rightarrow>
          if HasPrefix (fieldName ft) ''Flag'' then
            (case flagFromType L ft cmdmeta of
               Inl err \<Rightarrow> Inl (Wrap err ''failed to generate flag from struct field'')
             | Inr flag \<Rightarrow>
                 (case contextValue L c (fieldType ft) (GetName flag) of
                    None \<Rightarrow> Inl (Panic ''unsupported type'')
                  | Some v \<Rightarrow> Flags_loop L c (setFieldByName (fieldName ft) v resultValue) fts))
          else Flags_loop L c resultValue fts)"

text \<open>
  \<^verbatim>\<open>Flags\<close> panics where it fails: \<open>Inl\<close> is the value it panics with. The result is the
  new struct, as the names and values of its fields in declaration order.
\<close>

definition Flags ::
  "'f lib \<Rightarrow> ('f, 'a) object \<Rightarrow> 'f Context \<Rightarrow> error + (string \<times> ('f, 'a) val) list" where
  "Flags L obj c =
     (if obj = NilObj then Inl (Panic ''obj is null'')
      else
        case deref obj of
          StructObj tn flds \<Rightarrow>
            Flags_loop L c (map (\<lambda>(ft, fv). (fieldName ft, zeroValue (fieldType ft))) flds)
              (map fst flds)
        | NilObj \<Rightarrow> Inl (Panic ''reflect: call of reflect.Value.Type on zero Value'')
        | _ \<Rightarrow> Inl (Panic ''reflect: NumField of non-struct type''))"

section \<open>What the properties are stated with\<close>

text \<open>The field types that \<^verbatim>\<open>flagFromType\<close> and \<^verbatim>\<open>Flags\<close> have a case for.\<close>

definition supportedTypes :: "string list" where
  "supportedTypes =
     [''int'', ''int64'', ''uint'', ''uint64'', ''float32'', ''float64'', ''bool'', ''string'',
      ''time.Duration'', ''[]int'', ''[]int64'', ''[]string'']"

text \<open>A field is eligible when its name begins with \<^verbatim>\<open>Flag\<close>.\<close>

definition eligible :: "StructField \<Rightarrow> bool" where
  "eligible ft = HasPrefix (fieldName ft) ''Flag''"

text \<open>The flag of a field: its tag parsed, then \<^verbatim>\<open>flagFromType\<close>.\<close>

definition fieldFlag :: "'f lib \<Rightarrow> StructField \<Rightarrow> error + 'f Flag" where
  "fieldFlag L ft =
     (case parseMeta (fieldTag ft) of
        Inl err \<Rightarrow> Inl err
      | Inr cmdmeta \<Rightarrow> flagFromType L ft cmdmeta)"

text \<open>
  The default of a flag, as the value of a struct field. \<^verbatim>\<open>BoolFlag\<close> is off and
  \<^verbatim>\<open>BoolTFlag\<close> is on when the flag is not given; a slice flag without a value has no
  elements.
\<close>

fun defaultValue :: "'f Flag \<Rightarrow> ('f, 'a) val" where
  "defaultValue (IntFlag n e v h u) = IntVal v"
| "defaultValue (Int64Flag n e v h u) = IntVal v"
| "defaultValue (UintFlag n e v h u) = UintVal v"
| "defaultValue (Uint64Flag n e v h u) = UintVal v"
| "defaultValue (Float64Flag n e v h u) = FloatVal v"
| "defaultValue (BoolFlag n e h u) = BoolVal False"
| "defaultValue (BoolTFlag n e h u) = BoolVal True"
| "defaultValue (StringFlag n e v h u) = StringVal v"
| "defaultValue (DurationFlag n e v h u) = IntVal v"
| "defaultValue (IntSliceFlag n e v h u) = IntSliceVal (case v of None \<Rightarrow> [] | Some xs \<Rightarrow> xs)"
| "defaultValue (Int64SliceFlag n e v h u) = IntSliceVal (case v of None \<Rightarrow> [] | Some xs \<Rightarrow> xs)"
| "defaultValue (StringSliceFlag n e v h u) = StringSliceVal (case v of None \<Rightarrow> [] | Some xs \<Rightarrow> xs)"

text \<open>
  A context that holds the default of a flag: the reader of the flag's kind answers the
  flag's default for the flag's name.
\<close>

fun preloaded :: "'f Context \<Rightarrow> 'f Flag \<Rightarrow> bool" where
  "preloaded c (IntFlag n e v h u) = (ctx_Int c n = v)"
| "preloaded c (Int64Flag n e v h u) = (ctx_Int64 c n = v)"
| "preloaded c (UintFlag n e v h u) = (ctx_Uint c n = v)"
| "preloaded c (Uint64Flag n e v h u) = (ctx_Uint64 c n = v)"
| "preloaded c (Float64Flag n e v h u) = (ctx_Float64 c n = v)"
| "preloaded c (BoolFlag n e h u) = (ctx_Bool c n = False)"
| "preloaded c (BoolTFlag n e h u) = (ctx_Bool c n = True)"
| "preloaded c (StringFlag n e v h u) = (ctx_String c n = v)"
| "preloaded c (DurationFlag n e v h u) = (ctx_Duration c n = v)"
| "preloaded c (IntSliceFlag n e v h u) =
     (ctx_IntSlice c n = (case v of None \<Rightarrow> [] | Some xs \<Rightarrow> xs))"
| "preloaded c (Int64SliceFlag n e v h u) =
     (ctx_Int64Slice c n = (case v of None \<Rightarrow> [] | Some xs \<Rightarrow> xs))"
| "preloaded c (StringSliceFlag n e v h u) =
     (ctx_StringSlice c n = (case v of None \<Rightarrow> [] | Some xs \<Rightarrow> xs))"

text \<open>Two contexts that answer the same for a flag name, whichever reader is asked.\<close>

definition agree :: "'f Context \<Rightarrow> 'f Context \<Rightarrow> string \<Rightarrow> bool" where
  "agree c c' n =
     (ctx_Int c n = ctx_Int c' n \<and> ctx_Int64 c n = ctx_Int64 c' n \<and>
      ctx_Uint c n = ctx_Uint c' n \<and> ctx_Uint64 c n = ctx_Uint64 c' n \<and>
      ctx_Float64 c n = ctx_Float64 c' n \<and> ctx_Bool c n = ctx_Bool c' n \<and>
      ctx_String c n = ctx_String c' n \<and> ctx_Duration c n = ctx_Duration c' n \<and>
      ctx_IntSlice c n = ctx_IntSlice c' n \<and> ctx_Int64Slice c n = ctx_Int64Slice c' n \<and>
      ctx_StringSlice c n = ctx_StringSlice c' n)"

text \<open>
  A segment of a tag in which every comma stands inside single quotes: it is not empty,
  the number of quotes before each of its commas is odd, and its quotes are paired.
\<close>

definition quoteCount :: "string \<Rightarrow> nat" where
  "quoteCount s = length (filter (\<lambda>c. c = quote) s)"

definition closedSegment :: "string \<Rightarrow> bool" where
  "closedSegment s =
     (s \<noteq> [] \<and> even (quoteCount s) \<and>
      (\<forall>i < length s. s ! i = CHR '','' \<longrightarrow> odd (quoteCount (take i s))))"

text \<open>The segments written one after the other with a comma between them.\<close>

fun joinSegments :: "string list \<Rightarrow> string" where
  "joinSegments [] = []"
| "joinSegments [s] = s"
| "joinSegments (s # t # ss) = s @ CHR '','' # joinSegments (t # ss)"

text \<open>
  The integer that a decimal literal stands for: an optional sign, then one or more
  digits, read in base ten. It is written without regard to any range, and \<open>None\<close>
  where the string is no such literal.
\<close>

definition digitTable :: "(char \<times> nat) list" where
  "digitTable =
     [(CHR ''0'', 0), (CHR ''1'', 1), (CHR ''2'', 2), (CHR ''3'', 3), (CHR ''4'', 4),
      (CHR ''5'', 5), (CHR ''6'', 6), (CHR ''7'', 7), (CHR ''8'', 8), (CHR ''9'', 9)]"

definition isDecimal :: "string \<Rightarrow> bool" where
  "isDecimal s = (s \<noteq> [] \<and> list_all (\<lambda>c. map_of digitTable c \<noteq> None) s)"

definition decimalValue :: "string \<Rightarrow> nat" where
  "decimalValue s =
     foldl (\<lambda>n c. 10 * n + (case map_of digitTable c of Some d \<Rightarrow> d | None \<Rightarrow> 0)) 0 s"

definition intLiteral :: "string \<Rightarrow> int option" where
  "intLiteral s =
     (case s of
        [] \<Rightarrow> None
      | c # cs \<Rightarrow>
          if c = CHR ''-'' then (if isDecimal cs then Some (- int (decimalValue cs)) else None)
          else if c = CHR ''+'' then (if isDecimal cs then Some (int (decimalValue cs)) else None)
          else if isDecimal s then Some (int (decimalValue s)) else None)"

text \<open>The literals that \<^verbatim>\<open>strconv.ParseBool\<close> accepts.\<close>

definition boolLiterals :: "string list" where
  "boolLiterals =
     [''1'', ''t'', ''T'', ''TRUE'', ''true'', ''True'', ''0'', ''f'', ''F'', ''FALSE'', ''false'', ''False'']"

text \<open>
  The value that a valid default literal \<open>d\<close> stands for at a field of type \<open>t\<close>, and \<open>None\<close>
  where \<open>d\<close> is no valid literal of the type: a decimal literal within the range of the
  integer type, one of the boolean literals, a literal that the parser of the library
  accepts for the floating point types and for durations, any string, and for the lists
  the values of the parts of \<open>d\<close> between commas, none for an empty \<open>d\<close>.
\<close>

definition coercedDefault :: "'f lib \<Rightarrow> string \<Rightarrow> string \<Rightarrow> ('f, 'a) val option" where
  "coercedDefault L t d =
     (if t \<in> set [''int'', ''int64''] then
        (case intLiteral d of
           Some i \<Rightarrow> if - (2 ^ 63) \<le> i \<and> i < 2 ^ 63 then Some (IntVal (word_of_int i)) else None
         | None \<Rightarrow> None)
      else if t \<in> set [''uint'', ''uint64''] then
        (if isDecimal d \<and> decimalValue d < 2 ^ 64 then Some (UintVal (of_nat (decimalValue d)))
         else None)
      else if t = ''float32'' then
        (case ParseFloat L d 32 of (x, None) \<Rightarrow> Some (FloatVal x) | (x, Some e) \<Rightarrow> None)
      else if t = ''float64'' then
        (case ParseFloat L d 64 of (x, None) \<Rightarrow> Some (FloatVal x) | (x, Some e) \<Rightarrow> None)
      else if t = ''bool'' then
        (if d \<in> set [''1'', ''t'', ''T'', ''TRUE'', ''true'', ''True''] then Some (BoolVal True)
         else if d \<in> set [''0'', ''f'', ''F'', ''FALSE'', ''false'', ''False''] then Some (BoolVal False)
         else None)
      else if t = ''string'' then Some (StringVal d)
      else if t = ''time.Duration'' then
        (case ParseDuration L d of (x, None) \<Rightarrow> Some (IntVal x) | (x, Some e) \<Rightarrow> None)
      else if t \<in> set [''[]int'', ''[]int64''] then
        (if d = [] then Some (IntSliceVal [])
         else if list_all (\<lambda>w. case intLiteral w of
                                  Some i \<Rightarrow> - (2 ^ 63) \<le> i \<and> i < 2 ^ 63 | None \<Rightarrow> False)
                   (Split d CHR '','')
         then Some (IntSliceVal
                      (map (\<lambda>w. case intLiteral w of Some i \<Rightarrow> word_of_int i | None \<Rightarrow> 0)
                         (Split d CHR '','')))
         else None)
      else if t = ''[]string'' then Some (StringSliceVal (if d = [] then [] else Split d CHR '',''))
      else None)"

subsection \<open>A sample library, for evaluating the functions on concrete inputs\<close>

text \<open>
  Stand-ins for the parameters of \<open>lib\<close>: case conversions that know the ASCII letters
  and put a hyphen before an upper case letter, no floating point literal, and durations
  of whole seconds only (\<^verbatim>\<open>5s\<close>).
\<close>

definition asciiLower :: "char \<Rightarrow> char" where
  "asciiLower c =
     (case map_of (zip ''ABCDEFGHIJKLMNOPQRSTUVWXYZ'' ''abcdefghijklmnopqrstuvwxyz'') c of
        Some l \<Rightarrow> l | None \<Rightarrow> c)"

definition asciiUpper :: "char \<Rightarrow> char" where
  "asciiUpper c =
     (case map_of (zip ''abcdefghijklmnopqrstuvwxyz'' ''ABCDEFGHIJKLMNOPQRSTUVWXYZ'') c of
        Some l \<Rightarrow> l | None \<Rightarrow> c)"

fun sampleKebab_rest :: "string \<Rightarrow> string" where
  "sampleKebab_rest [] = []"
| "sampleKebab_rest (c # cs) =
     (if asciiLower c \<noteq> c then CHR ''-'' # asciiLower c # sampleKebab_rest cs
      else c # sampleKebab_rest cs)"

definition sampleKebab :: "string \<Rightarrow> string" where
  "sampleKebab s = (case s of [] \<Rightarrow> [] | c # cs \<Rightarrow> asciiLower c # sampleKebab_rest cs)"

definition sampleSnake :: "string \<Rightarrow> string" where
  "sampleSnake s = map (\<lambda>c. if c = CHR ''-'' then CHR ''_'' else asciiUpper c) s"

text \<open>\<^verbatim>\<open>strconv.Quote\<close> on a string in which nothing is to be escaped.\<close>

definition sampleQuote :: "string \<Rightarrow> string" where
  "sampleQuote s = [CHR 0x22] @ s @ [CHR 0x22]"

definition sampleDuration :: "string \<Rightarrow> int64 \<times> error option" where
  "sampleDuration s =
     (if s \<noteq> [] \<and> last s = CHR ''s'' then
        (case ParseInt (butlast s) of
           (n, None) \<Rightarrow> (n * 1000000000, None)
         | (n, Some e) \<Rightarrow> (0, Some (New ''time: invalid duration'')))
      else (0, Some (New ''time: invalid duration'')))"

definition sampleLib :: "int lib" where
  "sampleLib =
     \<lparr>ToKebab = sampleKebab, ToScreamingSnake = sampleSnake, ToLower = map asciiLower,
      ParseFloat = (\<lambda>s bits. (0, Some (NumError ''ParseFloat'' s ErrSyntax))),
      ParseDuration = sampleDuration, float32 = (\<lambda>x. x)\<rparr>"

text \<open>
  A field that neither \<^verbatim>\<open>commandFromObject\<close> nor \<^verbatim>\<open>Flags\<close> stops at: its tag parses,
  and its type is one of the supported ones if it is eligible.
\<close>

definition fieldOK :: "StructField \<Rightarrow> bool" where
  "fieldOK ft =
     (case parseMeta (fieldTag ft) of
        Inl err \<Rightarrow> False
      | Inr cmdmeta \<Rightarrow> \<not> eligible ft \<or> fieldType ft \<in> set supportedTypes)"

text \<open>\<^verbatim>\<open>strings.Contains(s, substr)\<close>.\<close>

fun Contains :: "string \<Rightarrow> string \<Rightarrow> bool" where
  "Contains [] substr = (substr = [])"
| "Contains (c # cs) substr = (HasPrefix (c # cs) substr \<or> Contains cs substr)"

subsection \<open>Sample structs\<close>

text \<open>
  \<^verbatim>\<open>type Serve struct { cli.Command `cli:"usage:'serve files, fast'"`; ... }\<close> with
  fields of several types, and the \<^verbatim>\<open>cli.Command\<close> value embedded in an instance.
\<close>

definition commandField :: StructField where
  "commandField =
     \<lparr>fieldName = ''Command'', fieldType = ''cli.Command'',
      fieldTag = ''usage:'' @ [quote] @ ''serve files, fast'' @ [quote]\<rparr>"

definition sampleCommand :: "(int, unit) Command" where
  "sampleCommand = \<lparr>cmd_Name = [], cmd_Usage = [], cmd_Action = Some (), cmd_Flags = []\<rparr>"

definition portField :: StructField where
  "portField = \<lparr>fieldName = ''FlagPort'', fieldType = ''int'', fieldTag = ''default:8080''\<rparr>"

definition verboseField :: StructField where
  "verboseField =
     \<lparr>fieldName = ''FlagVerbose'', fieldType = ''bool'', fieldTag = ''default:true,hidden:1''\<rparr>"

definition timeoutField :: StructField where
  "timeoutField =
     \<lparr>fieldName = ''FlagIdleTimeout'', fieldType = ''time.Duration'', fieldTag = ''default:5s''\<rparr>"

definition tagsField :: StructField where
  "tagsField =
     \<lparr>fieldName = ''FlagTags'', fieldType = ''[]string'',
      fieldTag = ''name:Labels,default:'' @ [quote] @ ''a,b'' @ [quote]\<rparr>"

definition counterField :: StructField where
  "counterField = \<lparr>fieldName = ''Counter'', fieldType = ''int'', fieldTag = []\<rparr>"

definition ratioField :: StructField where
  "ratioField = \<lparr>fieldName = ''FlagRatio'', fieldType = ''complex128'', fieldTag = []\<rparr>"

definition serveFields :: "(StructField \<times> (int, unit) val) list" where
  "serveFields =
     [(commandField, CommandVal sampleCommand), (portField, IntVal 1),
      (counterField, IntVal 7), (verboseField, BoolVal False),
      (timeoutField, IntVal 0), (tagsField, StringSliceVal [''x''])]"

definition brokenFields :: "(StructField \<times> (int, unit) val) list" where
  "brokenFields =
     [(commandField, CommandVal sampleCommand), (portField, IntVal 1),
      (ratioField, OtherVal ''complex128'')]"

text \<open>A context that holds the defaults of the flags of \<open>serveFields\<close>.\<close>

definition sampleContext :: "int Context" where
  "sampleContext =
     \<lparr>ctx_Int = (\<lambda>n. if n = ''port'' then 8080 else 0),
      ctx_Int64 = (\<lambda>n. 0),
      ctx_Uint = (\<lambda>n. 0),
      ctx_Uint64 = (\<lambda>n. 0),
      ctx_Float64 = (\<lambda>n. 0),
      ctx_Bool = (\<lambda>n. n = ''verbose''),
      ctx_String = (\<lambda>n. []),
      ctx_Duration = (\<lambda>n. if n = ''idle-timeout'' then 5000000000 else 0),
      ctx_IntSlice = (\<lambda>n. []),
      ctx_Int64Slice = (\<lambda>n. []),
      ctx_StringSlice = (\<lambda>n. if n = ''labels'' then [''a'', ''b''] else [])\<rparr>"

definition versionFields :: "(StructField \<times> (int, unit) val) list" where
  "versionFields = [(commandField, CommandVal sampleCommand)]"

text \<open>An application as \<^verbatim>\<open>cli.NewApp()\<close> makes it: no flags, no commands.\<close>

definition sampleNewApp :: "(int, unit) App" where
  "sampleNewApp =
     \<lparr>app_Usage = ''A new cli application'', app_Action = None, app_Flags = [],
      app_Commands = []\<rparr>"

text \<open>The commands that \<^verbatim>\<open>commandFromObject\<close> makes of the two sample structs.\<close>

definition serveCommand :: "(int, unit) Command" where
  "serveCommand =
     \<lparr>cmd_Name = ''serve'', cmd_Usage = ''serve files, fast'', cmd_Action = Some (),
      cmd_Flags =
        [IntFlag ''port'' ''PORT'' 8080 False [],
         BoolTFlag ''verbose'' ''VERBOSE'' True [],
         DurationFlag ''idle-timeout'' ''IDLE_TIMEOUT'' 5000000000 False [],
         StringSliceFlag ''labels'' ''LABELS'' (Some [''a'', ''b'']) False []]\<rparr>"

definition versionCommand :: "(int, unit) Command" where
  "versionCommand =
     \<lparr>cmd_Name = ''version'', cmd_Usage = ''serve files, fast'', cmd_Action = Some (),
      cmd_Flags = []\<rparr>"

text \<open>A context that differs from \<open>sampleContext\<close> at a name that is no flag's.\<close>

definition otherContext :: "int Context" where
  "otherContext =
     sampleContext\<lparr>ctx_Int := (\<lambda>n. if n = ''port'' then 8080 else if n = ''counter'' then 99 else 0)\<rparr>"

section \<open>The properties\<close>

subsection \<open>Splitting a tag into sections\<close>

text \<open>
  Reading a stretch of the tag in which no comma separates: the state of the quotes
  flips once for every quote, and the stretch goes to the field being read.
\<close>

lemma scan_segment:
  "\<forall>i<length s. s ! i = CHR '','' \<longrightarrow> (q \<noteq> odd (quoteCount (take i s))) \<Longrightarrow>
   FieldsFunc_loop parseMeta_sep q start (s @ rest) =
   FieldsFunc_loop parseMeta_sep (q \<noteq> odd (quoteCount s))
     (if s = [] then start else Some (case start of None \<Rightarrow> s | Some w \<Rightarrow> w @ s)) rest"
proof (induction s arbitrary: q start)
  case Nil
  then show ?case by (simp add: quoteCount_def)
next
  case (Cons c cs)
  let ?q' = "(q \<noteq> (c = quote))"
  have c0: "c = CHR '','' \<longrightarrow> q"
    using Cons.prems[rule_format, of 0] by (simp add: quoteCount_def)
  have rest: "\<forall>i<length cs. cs ! i = CHR '','' \<longrightarrow> (?q' \<noteq> odd (quoteCount (take i cs)))"
  proof (intro allI impI)
    fix i assume "i < length cs" "cs ! i = CHR '',''"
    then have "q \<noteq> odd (quoteCount (take (Suc i) (c # cs)))"
      using Cons.prems[rule_format, of "Suc i"] by simp
    then show "?q' \<noteq> odd (quoteCount (take i cs))"
      by (auto simp: quoteCount_def)
  qed
  have sep: "parseMeta_sep q c = (False, ?q')"
    using c0 by (auto simp: parseMeta_sep_def Let_def)
  have st: "(?q' \<noteq> odd (quoteCount cs)) = (q \<noteq> odd (quoteCount (c # cs)))"
    by (auto simp: quoteCount_def)
  note IH = Cons.IH[OF rest, unfolded st]
  show ?case
  proof (cases start)
    case None
    then show ?thesis using IH[of "Some [c]"] sep by (cases "cs = []") simp_all
  next
    case (Some w)
    then show ?thesis using IH[of "Some (w @ [c])"] sep by (cases "cs = []") simp_all
  qed
qed

lemma scan_closed:
  "closedSegment s \<Longrightarrow>
   FieldsFunc_loop parseMeta_sep False None (s @ rest) =
   FieldsFunc_loop parseMeta_sep False (Some s) rest"
  using scan_segment[of s False None rest] by (simp add: closedSegment_def)

lemma sections_join:
  "\<forall>s \<in> set segs. closedSegment s \<Longrightarrow>
   FieldsFunc_loop parseMeta_sep False None (joinSegments segs) = segs"
proof (induction segs rule: joinSegments.induct)
  case 1
  then show ?case by simp
next
  case (2 s)
  then have "closedSegment s" by simp
  from scan_closed[OF this, of "[]"] show ?case by simp
next
  case (3 s t ss)
  then have "closedSegment s" by simp
  note a = scan_closed[OF this, of "CHR '','' # joinSegments (t # ss)"]
  have sep: "parseMeta_sep False CHR '','' = (True, False)"
    by (simp add: parseMeta_sep_def)
  have b: "FieldsFunc_loop parseMeta_sep False (Some s) (CHR '','' # joinSegments (t # ss)) =
        s # FieldsFunc_loop parseMeta_sep False None (joinSegments (t # ss))"
    using sep by simp
  have c: "FieldsFunc_loop parseMeta_sep False None (joinSegments (t # ss)) = t # ss"
    using 3 by simp
  show ?case
    unfolding joinSegments.simps a b c ..
qed

text \<open>
  C4. \<^verbatim>\<open>parseMeta\<close> splits a tag only at the commas outside single quotes: the tag
  \<^verbatim>\<open>usage:'a,b,c',default:1\<close> gives the usage \<^verbatim>\<open>a,b,c\<close>, without its quotes, and the
  default \<^verbatim>\<open>1\<close>; and whenever segments in which every comma stands inside quotes are
  joined by commas, the sections that \<^verbatim>\<open>parseMeta\<close> works on are these segments.
\<close>

theorem parseMeta_quoting:
  "parseMeta (''usage:'' @ [quote] @ ''a,b,c'' @ [quote] @ '',default:1'') =
     Inr \<lparr>meta_Name = [], meta_Usage = ''a,b,c'', meta_Hidden = False, meta_Default = ''1''\<rparr>
   \<and> ((\<forall>s \<in> set segs. closedSegment s) \<longrightarrow>
        parseMeta_sections (joinSegments segs) = segs)"
proof
  show "parseMeta (''usage:'' @ [quote] @ ''a,b,c'' @ [quote] @ '',default:1'') =
     Inr \<lparr>meta_Name = [], meta_Usage = ''a,b,c'', meta_Hidden = False, meta_Default = ''1''\<rparr>"
    by (simp add: parseMeta_def parseMeta_sections_def FieldsFunc_def parseMeta_sep_def
        empty_commandMetadata_def SplitN2_def Trim_def)
next
  show "(\<forall>s \<in> set segs. closedSegment s) \<longrightarrow> parseMeta_sections (joinSegments segs) = segs"
    by (simp add: parseMeta_sections_def FieldsFunc_def sections_join)
qed

theorem parseMeta_quoting_witness:
  "closedSegment (''usage:'' @ [quote] @ ''a,b,c'' @ [quote]) \<and> closedSegment ''default:1''
   \<and> parseMeta_sections (''usage:'' @ [quote] @ ''a,b,c'' @ [quote] @ '',default:1'') =
       [''usage:'' @ [quote] @ ''a,b,c'' @ [quote], ''default:1'']"
proof -
  have h1: "closedSegment (''usage:'' @ [quote] @ ''a,b,c'' @ [quote])"
    by (simp add: closedSegment_def quoteCount_def less_Suc_eq)
  have h2: "closedSegment ''default:1''"
    by (simp add: closedSegment_def quoteCount_def less_Suc_eq)
  from parseMeta_quoting[of "[''usage:'' @ [quote] @ ''a,b,c'' @ [quote], ''default:1'']"] h1 h2
  show ?thesis by simp
qed

subsection \<open>Flags, field by field\<close>

lemma flagFromType_unsupported:
  "fieldType ft \<notin> set supportedTypes \<Longrightarrow>
   flagFromType L ft m = Inl (New (''unsupported flag generator type: '' @ fieldType ft))"
  by (simp add: flagFromType_def supportedTypes_def Let_def)

lemma flagFromType_supported:
  "fieldType ft \<in> set supportedTypes \<Longrightarrow> \<exists>fl. flagFromType L ft m = Inr fl"
  by (auto simp add: flagFromType_def supportedTypes_def Let_def)

lemma flagFromType_name:
  "flagFromType L ft m = Inr fl \<Longrightarrow>
   GetName fl = flagName L (fieldName ft) (meta_Name m) \<and> EnvVar fl = envName L (GetName fl)"
  by (auto simp add: flagFromType_def Let_def split: if_splits)

lemma contextValue_supported:
  "t \<in> set supportedTypes \<Longrightarrow> \<exists>v. contextValue L c t n = Some v"
  by (auto simp add: contextValue_def supportedTypes_def)

lemma contextValue_unsupported:
  "t \<notin> set supportedTypes \<Longrightarrow> contextValue L c t n = None"
  by (simp add: contextValue_def supportedTypes_def)


lemma fieldOK_parse:
  "fieldOK ft \<Longrightarrow> \<exists>m. parseMeta (fieldTag ft) = Inr m"
  by (auto simp: fieldOK_def split: sum.splits)

lemma fieldOK_flag:
  "fieldOK ft \<Longrightarrow> eligible ft \<Longrightarrow> parseMeta (fieldTag ft) = Inr m \<Longrightarrow>
   \<exists>fl. flagFromType L ft m = Inr fl"
  by (auto simp: fieldOK_def flagFromType_supported)

lemma Flags_loop_first_failure:
  "\<forall>f \<in> set pre. fieldOK f \<Longrightarrow> parseMeta (fieldTag ft) = Inr m \<Longrightarrow> eligible ft \<Longrightarrow>
   flagFromType L ft m = Inl e \<Longrightarrow>
   Flags_loop L c (res :: (string \<times> ('f, 'a) val) list) (pre @ ft # post) =
     Inl (Wrap e ''failed to generate flag from struct field'')"
proof (induction pre arbitrary: res)
  case Nil
  then show ?case by (simp add: eligible_def)
next
  case (Cons f pre)
  then have ok: "fieldOK f" by simp
  then obtain mf where mf: "parseMeta (fieldTag f) = Inr mf"
    using fieldOK_parse by blast
  show ?case
  proof (cases "eligible f")
    case True
    then obtain fl where fl: "flagFromType L f mf = Inr fl"
      using fieldOK_flag[OF ok True mf] by blast
    from ok True mf have "fieldType f \<in> set supportedTypes"
      by (simp add: fieldOK_def)
    then obtain v :: "('f, 'a) val"
      where v: "contextValue L c (fieldType f) (GetName fl) = Some v"
      using contextValue_supported by blast
    from Cons show ?thesis
      using True mf fl v by (simp add: eligible_def)
  next
    case False
    with Cons mf show ?thesis by (simp add: eligible_def)
  qed
qed

lemma commandFromObject_loop_first_failure:
  "\<forall>f \<in> set pre. fieldOK f \<Longrightarrow> parseMeta (fieldTag ft) = Inr m \<Longrightarrow> eligible ft \<Longrightarrow>
   flagFromType L ft m = Inl e \<Longrightarrow>
   commandFromObject_loop L cmd (pre @ ft # post) =
     Inl (Wrap e ''failed to generate flag from struct field'')"
proof (induction pre arbitrary: cmd)
  case Nil
  then show ?case by (simp add: eligible_def)
next
  case (Cons f pre)
  then have ok: "fieldOK f" by simp
  then obtain mf where mf: "parseMeta (fieldTag f) = Inr mf"
    using fieldOK_parse by blast
  show ?case
  proof (cases "eligible f")
    case True
    then obtain fl where fl: "flagFromType L f mf = Inr fl"
      using fieldOK_flag[OF ok True mf] by blast
    from Cons show ?thesis
      using True mf fl by (simp add: eligible_def)
  next
    case False
    with Cons mf show ?thesis by (simp add: eligible_def)
  qed
qed

lemma Flags_loop_unsupported:
  "ft \<in> set fts \<Longrightarrow> eligible ft \<Longrightarrow> fieldType ft \<notin> set supportedTypes \<Longrightarrow>
   \<exists>e. Flags_loop L c res fts = Inl e"
proof (induction fts arbitrary: res)
  case Nil
  then show ?case by simp
next
  case (Cons f fts)
  show ?case
  proof (cases "f = ft")
    case True
    with Cons.prems show ?thesis
      by (auto simp: eligible_def flagFromType_unsupported split: sum.splits)
  next
    case False
    with Cons.prems have "ft \<in> set fts" by simp
    from Cons.IH[OF this Cons.prems(2,3)] show ?thesis
      by (auto split: sum.splits option.splits)
  qed
qed

lemma commandFromObject_loop_unsupported:
  "ft \<in> set fts \<Longrightarrow> eligible ft \<Longrightarrow> fieldType ft \<notin> set supportedTypes \<Longrightarrow>
   \<exists>e. commandFromObject_loop L cmd fts = Inl e"
proof (induction fts arbitrary: cmd)
  case Nil
  then show ?case by simp
next
  case (Cons f fts)
  show ?case
  proof (cases "f = ft")
    case True
    with Cons.prems show ?thesis
      by (auto simp: eligible_def flagFromType_unsupported split: sum.splits)
  next
    case False
    with Cons.prems have "ft \<in> set fts" by simp
    from Cons.IH[OF this Cons.prems(2,3)] show ?thesis
      by (auto split: sum.splits option.splits)
  qed
qed

lemma getCommand_eligible:
  "eligible ft \<Longrightarrow> \<exists>e. getCommand ft fv = Inl e"
  by (auto simp: getCommand_def eligible_def HasPrefix_def)

subsection \<open>The sample structs, evaluated\<close>

lemma ev_meta_empty: "parseMeta [] = Inr empty_commandMetadata"
  by (simp add: parseMeta_def parseMeta_sections_def FieldsFunc_def)

lemma ev_command_meta:
  "parseMeta (fieldTag commandField) = Inr (empty_commandMetadata\<lparr>meta_Usage := ''serve files, fast''\<rparr>)"
  by (simp add: commandField_def parseMeta_def parseMeta_sections_def FieldsFunc_def
      parseMeta_sep_def SplitN2_def Trim_def)

lemma ev_port_meta:
  "parseMeta (fieldTag portField) = Inr (empty_commandMetadata\<lparr>meta_Default := ''8080''\<rparr>)"
  by (simp add: portField_def parseMeta_def parseMeta_sections_def FieldsFunc_def
      parseMeta_sep_def SplitN2_def Trim_def)

lemma sample_fields:
  "fieldName commandField = ''Command''" "fieldType commandField = ''cli.Command''"
  "fieldName portField = ''FlagPort''" "fieldType portField = ''int''"
  "fieldName verboseField = ''FlagVerbose''" "fieldType verboseField = ''bool''"
  "fieldName timeoutField = ''FlagIdleTimeout''" "fieldType timeoutField = ''time.Duration''"
  "fieldName tagsField = ''FlagTags''" "fieldType tagsField = ''[]string''"
  "fieldName counterField = ''Counter''" "fieldType counterField = ''int''"
  "fieldName ratioField = ''FlagRatio''" "fieldType ratioField = ''complex128''"
  by (simp_all add: commandField_def portField_def verboseField_def timeoutField_def
      tagsField_def counterField_def ratioField_def)

lemma ev_ok: "fieldOK commandField" "fieldOK portField"
  by (simp_all add: fieldOK_def ev_command_meta ev_port_meta eligible_def HasPrefix_def
      sample_fields supportedTypes_def)

lemma ev_names:
  "flagName sampleLib ''FlagPort'' [] = ''port''"
  "flagName sampleLib ''FlagVerbose'' [] = ''verbose''"
  "flagName sampleLib ''FlagIdleTimeout'' [] = ''idle-timeout''"
  "flagName sampleLib ''FlagTags'' ''Labels'' = ''labels''"
  "envName sampleLib ''port'' = ''PORT''"
  "envName sampleLib ''verbose'' = ''VERBOSE''"
  "envName sampleLib ''idle-timeout'' = ''IDLE_TIMEOUT''"
  "envName sampleLib ''labels'' = ''LABELS''"
  by (simp_all add: flagName_def envName_def sampleLib_def sampleKebab_def sampleSnake_def
      asciiLower_def asciiUpper_def TrimPrefix_def HasPrefix_def)

lemma ev_verbose_meta:
  "parseMeta (fieldTag verboseField) =
     Inr (empty_commandMetadata\<lparr>meta_Default := ''true'', meta_Hidden := True\<rparr>)"
  by (simp add: verboseField_def parseMeta_def parseMeta_sections_def FieldsFunc_def
      parseMeta_sep_def SplitN2_def Trim_def ParseBool_def)

lemma ev_timeout_meta:
  "parseMeta (fieldTag timeoutField) = Inr (empty_commandMetadata\<lparr>meta_Default := ''5s''\<rparr>)"
  by (simp add: timeoutField_def parseMeta_def parseMeta_sections_def FieldsFunc_def
      parseMeta_sep_def SplitN2_def Trim_def)

lemma ev_tags_meta:
  "parseMeta (fieldTag tagsField) =
     Inr (empty_commandMetadata\<lparr>meta_Name := ''Labels'', meta_Default := [quote] @ ''a,b'' @ [quote]\<rparr>)"
  by (simp add: tagsField_def parseMeta_def parseMeta_sections_def FieldsFunc_def
      parseMeta_sep_def SplitN2_def Trim_def)

lemma ev_counter_meta:
  "parseMeta (fieldTag counterField) = Inr empty_commandMetadata"
  by (simp add: counterField_def ev_meta_empty)

subsection \<open>Field types outside the supported ones\<close>

text \<open>
  C8. For a field whose type is none of the supported ones, \<^verbatim>\<open>flagFromType\<close> fails
  with an error that names the type. When such a field is eligible, neither
  \<^verbatim>\<open>commandFromObject\<close> nor \<^verbatim>\<open>Flags\<close> returns a result for a struct that has it: the
  field is never skipped. When it is the first field that either loop stops at, the
  error of \<^verbatim>\<open>commandFromObject\<close> and the value \<^verbatim>\<open>Flags\<close> panics with are that error of
  \<^verbatim>\<open>flagFromType\<close>, wrapped; the default case of the switch in \<^verbatim>\<open>Flags\<close> has the same
  supported types.
\<close>

theorem unsupported_type_fails:
  assumes "fieldType ft \<notin> set supportedTypes"
  shows "flagFromType L ft m = Inl (New (''unsupported flag generator type: '' @ fieldType ft))
    \<and> (eligible ft \<and> ft \<in> fst ` set flds \<longrightarrow>
         (\<exists>e. commandFromObject L (StructObj tn flds) = Inl e)
       \<and> (\<exists>e. Flags L (StructObj tn flds) c = Inl e))
    \<and> (eligible ft \<and> (\<forall>f \<in> set pre. fieldOK f) \<and> parseMeta (fieldTag ft) = Inr m \<longrightarrow>
         commandFromObject_loop L cmd (pre @ ft # post) =
           Inl (Wrap (New (''unsupported flag generator type: '' @ fieldType ft))
                  ''failed to generate flag from struct field'')
       \<and> Flags_loop L c res (pre @ ft # post) =
           Inl (Wrap (New (''unsupported flag generator type: '' @ fieldType ft))
                  ''failed to generate flag from struct field''))"
proof (intro conjI impI)
  show u: "flagFromType L ft m = Inl (New (''unsupported flag generator type: '' @ fieldType ft))"
    using assms by (rule flagFromType_unsupported)
  {
    assume a: "eligible ft \<and> ft \<in> fst ` set flds"
    then have el: "eligible ft" and mem: "ft \<in> set (map fst flds)" by auto
    show "\<exists>e. Flags L (StructObj tn flds) c = Inl e"
      using Flags_loop_unsupported[OF mem el assms] by (simp add: Flags_def)
    show "\<exists>e. commandFromObject L (StructObj tn flds) = Inl e"
    proof (cases flds)
      case Nil
      with mem show ?thesis by simp
    next
      case (Cons p rest)
      obtain ft0 fv0 where p: "p = (ft0, fv0)" by (cases p)
      show ?thesis
      proof (cases "ft0 = ft")
        case True
        then show ?thesis
          using getCommand_eligible[OF el, of fv0] Cons p
          by (auto simp: commandFromObject_def)
      next
        case False
        with mem Cons p have "ft \<in> set (map fst rest)" by auto
        from commandFromObject_loop_unsupported[OF this el assms] Cons p show ?thesis
          by (auto simp: commandFromObject_def split: sum.splits)
      qed
    qed
  }
  {
    assume a: "eligible ft \<and> (\<forall>f \<in> set pre. fieldOK f) \<and> parseMeta (fieldTag ft) = Inr m"
    show "commandFromObject_loop L cmd (pre @ ft # post) =
           Inl (Wrap (New (''unsupported flag generator type: '' @ fieldType ft))
                  ''failed to generate flag from struct field'')"
      using a u by (intro commandFromObject_loop_first_failure) auto
    show "Flags_loop L c res (pre @ ft # post) =
           Inl (Wrap (New (''unsupported flag generator type: '' @ fieldType ft))
                  ''failed to generate flag from struct field'')"
      using a u by (intro Flags_loop_first_failure) auto
  }
qed


theorem unsupported_type_fails_witness:
  "fieldType ratioField \<notin> set supportedTypes \<and> eligible ratioField
   \<and> flagFromType sampleLib ratioField empty_commandMetadata =
       Inl (New (''unsupported flag generator type: '' @ ''complex128''))
   \<and> (\<exists>e. commandFromObject sampleLib (StructObj ''Serve'' brokenFields) = Inl e)
   \<and> (\<exists>e. Flags sampleLib (StructObj ''Serve'' brokenFields) sampleContext = Inl e)
   \<and> Flags_loop sampleLib sampleContext ([] :: (string \<times> (int, unit) val) list)
        ([commandField, portField] @ ratioField # []) =
       Inl (Wrap (New (''unsupported flag generator type: '' @ ''complex128''))
              ''failed to generate flag from struct field'')"
proof -
  have h1: "fieldType ratioField \<notin> set supportedTypes"
    by (simp add: sample_fields supportedTypes_def)
  have h2: "eligible ratioField"
    by (simp add: sample_fields eligible_def HasPrefix_def)
  have h3: "ratioField \<in> fst ` set brokenFields"
    by (simp add: brokenFields_def)
  have h4: "parseMeta (fieldTag ratioField) = Inr empty_commandMetadata"
    by (simp add: ratioField_def ev_meta_empty)
  have h5: "\<forall>f \<in> set [commandField, portField]. fieldOK f"
    by (simp add: ev_ok)
  have ty: "fieldType ratioField = ''complex128''"
    by (simp add: sample_fields)
  note t = unsupported_type_fails[OF h1, where L = sampleLib and m = empty_commandMetadata
      and flds = brokenFields and tn = "''Serve''" and c = sampleContext
      and pre = "[commandField, portField]" and post = "[]"
      and res = "[] :: (string \<times> (int, unit) val) list"
      and cmd = sampleCommand, unfolded ty]
  show ?thesis using t h1 h2 h3 h4 h5 by blast
qed

subsection \<open>The error of a failing flag\<close>

lemma flagFromType_Inl:
  assumes "flagFromType L ft m = Inl e"
  shows "fieldType ft \<notin> set supportedTypes \<and>
   e = New (''unsupported flag generator type: '' @ fieldType ft)"
proof (cases "fieldType ft \<in> set supportedTypes")
  case True
  then show ?thesis using flagFromType_supported[OF True, of L m] assms by auto
next
  case False
  then show ?thesis using flagFromType_unsupported[OF False, of L m] assms by auto
qed

text \<open>
  C9, as the code has it. When \<^verbatim>\<open>flagFromType\<close> fails for an eligible field, the first
  that \<^verbatim>\<open>commandFromObject\<close> stops at, the error of \<^verbatim>\<open>commandFromObject\<close> is that failure
  wrapped with the fixed message \<^verbatim>\<open>failed to generate flag from struct field\<close>. Its text
  names the type of the field and not the field.
\<close>

theorem flag_failure_wrapped:
  assumes "tn \<noteq> []" "getCommand ft0 fv0 = Inr cmd0" "\<forall>f \<in> set pre. fieldOK (fst f)"
    "parseMeta (fieldTag ft) = Inr m" "eligible ft" "flagFromType L ft m = Inl e"
  shows "commandFromObject L (StructObj tn ((ft0, fv0) # pre @ (ft, fv) # post)) =
           Inl (Wrap e ''failed to generate flag from struct field'')
    \<and> e = New (''unsupported flag generator type: '' @ fieldType ft)
    \<and> Error Quote (Wrap e ''failed to generate flag from struct field'') =
        ''failed to generate flag from struct field: unsupported flag generator type: '' @ fieldType ft"
proof -
  have e: "e = New (''unsupported flag generator type: '' @ fieldType ft)"
    using flagFromType_Inl[OF assms(6)] by simp
  have pre: "\<forall>f \<in> set (map fst pre). fieldOK f" using assms(3) by simp
  have "commandFromObject_loop L (cmd0\<lparr>cmd_Name := ToLower L tn\<rparr>) (map fst pre @ ft # map fst post) =
          Inl (Wrap e ''failed to generate flag from struct field'')"
    by (rule commandFromObject_loop_first_failure[OF pre assms(4,5,6)])
  then have "commandFromObject L (StructObj tn ((ft0, fv0) # pre @ (ft, fv) # post)) =
           Inl (Wrap e ''failed to generate flag from struct field'')"
    using assms(1,2) by (simp add: commandFromObject_def)
  then show ?thesis using e by simp
qed

text \<open>
  C9 as stated fails: for the field \<^verbatim>\<open>FlagRatio complex128\<close> the text of the error has
  neither the name of the field nor the name of its flag.
\<close>

theorem flag_failure_unnamed_counterexample:
  "commandFromObject sampleLib (StructObj ''Serve'' brokenFields) =
     Inl (Wrap (New ''unsupported flag generator type: complex128'')
            ''failed to generate flag from struct field'')
   \<and> Error sampleQuote (Wrap (New ''unsupported flag generator type: complex128'')
              ''failed to generate flag from struct field'') =
       ''failed to generate flag from struct field: unsupported flag generator type: complex128''
   \<and> \<not> Contains ''failed to generate flag from struct field: unsupported flag generator type: complex128''
          ''Ratio''
   \<and> \<not> Contains ''failed to generate flag from struct field: unsupported flag generator type: complex128''
          ''ratio''"
proof -
  have g: "getCommand commandField (CommandVal sampleCommand) =
      Inr (sampleCommand\<lparr>cmd_Usage := ''serve files, fast'', cmd_Flags := []\<rparr>)"
    by (simp add: getCommand_def ev_command_meta sample_fields)
  have p: "\<exists>fl. flagFromType sampleLib portField (empty_commandMetadata\<lparr>meta_Default := ''8080''\<rparr>) = Inr fl"
    by (rule flagFromType_supported) (simp add: sample_fields supportedTypes_def)
  have r: "flagFromType sampleLib ratioField empty_commandMetadata =
      Inl (New ''unsupported flag generator type: complex128'')"
    by (simp add: flagFromType_def Let_def sample_fields)
  have e: "HasPrefix (fieldName portField) ''Flag''" "HasPrefix (fieldName ratioField) ''Flag''"
    by (simp_all add: sample_fields HasPrefix_def)
  have m: "parseMeta (fieldTag ratioField) = Inr empty_commandMetadata"
    by (simp add: ratioField_def ev_meta_empty)
  have "commandFromObject sampleLib (StructObj ''Serve'' brokenFields) =
     Inl (Wrap (New ''unsupported flag generator type: complex128'')
            ''failed to generate flag from struct field'')"
    using p by (auto simp: commandFromObject_def brokenFields_def g ev_port_meta e m r)
  moreover have "\<not> Contains ''failed to generate flag from struct field: unsupported flag generator type: complex128'' ''Ratio''"
    by (simp add: HasPrefix_def)
  moreover have "\<not> Contains ''failed to generate flag from struct field: unsupported flag generator type: complex128'' ''ratio''"
    by (simp add: HasPrefix_def)
  ultimately show ?thesis by simp
qed


theorem flag_failure_wrapped_witness:
  "''Serve'' \<noteq> []
   \<and> getCommand commandField (CommandVal sampleCommand) =
       Inr (sampleCommand\<lparr>cmd_Usage := ''serve files, fast'', cmd_Flags := []\<rparr>)
   \<and> fieldOK portField
   \<and> parseMeta (fieldTag ratioField) = Inr empty_commandMetadata
   \<and> eligible ratioField
   \<and> flagFromType sampleLib ratioField empty_commandMetadata =
       Inl (New (''unsupported flag generator type: '' @ ''complex128''))
   \<and> commandFromObject sampleLib
        (StructObj ''Serve''
          ((commandField, CommandVal sampleCommand) # [(portField, IntVal 1)] @
           (ratioField, OtherVal ''complex128'') # [])) =
       Inl (Wrap (New (''unsupported flag generator type: '' @ ''complex128''))
              ''failed to generate flag from struct field'')"
proof -
  have h1: "''Serve'' \<noteq> []" by simp
  have h2: "getCommand commandField (CommandVal sampleCommand) =
      Inr (sampleCommand\<lparr>cmd_Usage := ''serve files, fast'', cmd_Flags := []\<rparr>)"
    by (simp add: getCommand_def ev_command_meta sample_fields)
  have h3: "\<forall>f \<in> set [(portField, IntVal 1 :: (int, unit) val)]. fieldOK (fst f)"
    by (simp add: ev_ok)
  have h4: "parseMeta (fieldTag ratioField) = Inr empty_commandMetadata"
    by (simp add: ratioField_def ev_meta_empty)
  have h5: "eligible ratioField"
    by (simp add: sample_fields eligible_def HasPrefix_def)
  have ty: "fieldType ratioField = ''complex128''" by (simp add: sample_fields)
  have h6: "flagFromType sampleLib ratioField empty_commandMetadata =
      Inl (New (''unsupported flag generator type: '' @ ''complex128''))"
    using flagFromType_unsupported[of ratioField sampleLib empty_commandMetadata]
    by (simp add: sample_fields supportedTypes_def)
  note t = flag_failure_wrapped[OF h1 h2 h3 h4 h5 h6, where fv = "OtherVal ''complex128''"
      and post = "[]"]
  have ok: "fieldOK portField" by (simp add: ev_ok)
  show ?thesis using t h1 h2 ok h4 h5 h6 by blast
qed

subsection \<open>Defaults of slices and of booleans\<close>

lemma joinSegments_Cons: "joinSegments ((x # w) # ws) = x # joinSegments (w # ws)"
  by (cases ws) simp_all

lemma Split_not_Nil: "Split d c \<noteq> []"
  by (induction d) (auto split: list.splits)

lemma joinSegments_Split: "joinSegments (Split d CHR '','') = d"
proof (induction d)
  case Nil
  then show ?case by simp
next
  case (Cons x xs)
  obtain w ws where sp: "Split xs CHR '','' = w # ws"
    using Split_not_Nil[of xs "CHR '',''"] by (cases "Split xs CHR '',''") auto
  show ?case
  proof (cases "x = CHR '',''")
    case True
    then show ?thesis using Cons sp by simp
  next
    case False
    then show ?thesis using Cons sp by (simp add: joinSegments_Cons)
  qed
qed

lemma Split_no_sep: "w \<in> set (Split d c) \<Longrightarrow> c \<notin> set w"
  by (induction d arbitrary: w) (auto split: if_splits list.splits)

lemma Split_length: "length (Split d c) = Suc (length (filter (\<lambda>x. x = c) d))"
  by (induction d) (auto split: list.splits simp: Split_not_Nil)

lemma digit_table:
  "map_of digitTable c \<noteq> None \<Longrightarrow> isDigit c \<and> map_of digitTable c = Some (digitVal c)"
  by (auto simp: digitTable_def isDigit_def digitVal_def split: if_splits)

lemma loop_value_ge:
  "n \<le> foldl (\<lambda>n c. 10 * n + (case map_of digitTable c of Some d \<Rightarrow> d | None \<Rightarrow> 0)) n s"
proof (induction s arbitrary: n)
  case Nil
  then show ?case by simp
next
  case (Cons c cs)
  have "n \<le> 10 * n + (case map_of digitTable c of Some d \<Rightarrow> d | None \<Rightarrow> 0)" by simp
  also have "\<dots> \<le> foldl (\<lambda>n c. 10 * n + (case map_of digitTable c of Some d \<Rightarrow> d | None \<Rightarrow> 0))
      (10 * n + (case map_of digitTable c of Some d \<Rightarrow> d | None \<Rightarrow> 0)) cs"
    by (rule Cons.IH)
  finally show ?case by simp
qed

lemma ParseUint_loop_decimal:
  assumes "list_all (\<lambda>c. map_of digitTable c \<noteq> None) s"
    and "foldl (\<lambda>n c. 10 * n + (case map_of digitTable c of Some d \<Rightarrow> d | None \<Rightarrow> 0)) n s \<le> maxUint64"
  shows "ParseUint_loop n s =
    (foldl (\<lambda>n c. 10 * n + (case map_of digitTable c of Some d \<Rightarrow> d | None \<Rightarrow> 0)) n s, None)"
  using assms
proof (induction s arbitrary: n)
  case Nil
  then show ?case by simp
next
  case (Cons c cs)
  let ?f = "\<lambda>n c. 10 * n + (case map_of digitTable c of Some d \<Rightarrow> d | None \<Rightarrow> 0)"
  from Cons.prems(1) have dc: "map_of digitTable c \<noteq> None" and
    rest: "list_all (\<lambda>c. map_of digitTable c \<noteq> None) cs" by simp_all
  from digit_table[OF dc] have d: "isDigit c" and v: "map_of digitTable c = Some (digitVal c)"
    by simp_all
  have step: "?f n c = n * 10 + digitVal c" by (simp add: v)
  from Cons.prems(2) have b: "foldl ?f (?f n c) cs \<le> maxUint64" by simp
  have le: "?f n c \<le> maxUint64" using loop_value_ge[of "?f n c" cs] b by linarith
  then have le': "n * 10 + digitVal c \<le> maxUint64" using step by simp
  have lt: "\<not> n \<ge> maxUint64 div 10 + 1"
  proof
    assume "n \<ge> maxUint64 div 10 + 1"
    then have "n * 10 \<ge> (maxUint64 div 10 + 1) * 10" by simp
    moreover have "(maxUint64 div 10 + 1) * 10 > maxUint64" by (simp add: maxUint64_def)
    ultimately show False using le' by linarith
  qed
  have "ParseUint_loop n (c # cs) = ParseUint_loop (n * 10 + digitVal c) cs"
    using d lt le' by simp
  also have "\<dots> = ParseUint_loop (?f n c) cs" by (simp only: step)
  also have "\<dots> = (foldl ?f (?f n c) cs, None)" by (rule Cons.IH[OF rest b])
  finally show ?case by simp
qed

lemma ParseUint_nat_decimal:
  assumes "isDecimal s" and "decimalValue s \<le> maxUint64"
  shows "ParseUint_nat s = (decimalValue s, None)"
  using assms ParseUint_loop_decimal[of s 0]
  by (simp add: isDecimal_def decimalValue_def ParseUint_nat_def)


lemma ParseInt_literal:
  assumes "intLiteral s = Some i" and "- (2 ^ 63) \<le> i" and "i < 2 ^ 63"
  shows "ParseInt s = (word_of_int i, None)"
proof (cases s)
  case Nil
  with assms show ?thesis by (simp add: intLiteral_def)
next
  case (Cons c cs)
  have m: "(2::nat) ^ 63 \<le> maxUint64" by (simp add: maxUint64_def)
  show ?thesis
  proof (cases "c = CHR ''-''")
    case True
    with assms(1) Cons have dec: "isDecimal cs" and i: "i = - int (decimalValue cs)"
      by (simp_all add: intLiteral_def split: if_splits)
    from i assms(2) have le: "decimalValue cs \<le> 2 ^ 63" by simp
    with m have "decimalValue cs \<le> maxUint64" by linarith
    from ParseUint_nat_decimal[OF dec this] Cons True le i show ?thesis
      by (simp add: ParseInt_def Let_def)
  next
    case False
    note nm = this
    show ?thesis
    proof (cases "c = CHR ''+''")
      case True
      with assms(1) Cons nm have dec: "isDecimal cs" and i: "i = int (decimalValue cs)"
        by (simp_all add: intLiteral_def split: if_splits)
      from i assms(3) have lt: "decimalValue cs < 2 ^ 63" by simp
      with m have "decimalValue cs \<le> maxUint64" by linarith
      from ParseUint_nat_decimal[OF dec this] Cons True nm lt i show ?thesis
        by (simp add: ParseInt_def Let_def)
    next
      case False
      with assms(1) Cons nm have dec: "isDecimal s" and i: "i = int (decimalValue s)"
        by (simp_all add: intLiteral_def split: if_splits)
      from i assms(3) have lt: "decimalValue s < 2 ^ 63" by simp
      with m have "decimalValue s \<le> maxUint64" by linarith
      from ParseUint_nat_decimal[OF dec this] Cons False nm lt i show ?thesis
        by (simp add: ParseInt_def Let_def)
    qed
  qed
qed

lemma Atoi_literal:
  assumes "intLiteral s = Some i" and "- (2 ^ 63) \<le> i" and "i < 2 ^ 63"
  shows "Atoi s = (word_of_int i, None)"
  using ParseInt_literal[OF assms] by (simp add: Atoi_def)


text \<open>
  C6. For a field of type \<^verbatim>\<open>[]int\<close>, \<^verbatim>\<open>[]int64\<close> or \<^verbatim>\<open>[]string\<close>, with \<open>d\<close> the default
  literal without its quotes: when \<open>d\<close> is empty the flag has no value (\<^verbatim>\<open>nil\<close>, not an
  empty list), else its value is the list of the parts of \<open>d\<close> between commas, each
  converted by \<^verbatim>\<open>strconv.Atoi\<close> for the integer lists. The parts are those of \<open>d\<close>:
  joined by commas they give \<open>d\<close> back, none has a comma, and there is one more of them
  than commas in \<open>d\<close>. The conversion gives the integer that a part stands for: a part
  that is a decimal literal of a 64-bit integer becomes that integer.
\<close>

theorem list_defaults:
  assumes "fieldType ft \<in> set [''[]int'', ''[]int64'', ''[]string'']"
    and "d = Trim (meta_Default m) [quote]"
    and "n = flagName L (fieldName ft) (meta_Name m)"
  shows "(fieldType ft = ''[]int'' \<longrightarrow> flagFromType L ft m =
            Inr (IntSliceFlag n (envName L n)
                  (if d = [] then None else Some (map (\<lambda>s. fst (Atoi s)) (Split d CHR '','')))
                  (meta_Hidden m) (meta_Usage m)))
    \<and> (fieldType ft = ''[]int64'' \<longrightarrow> flagFromType L ft m =
            Inr (Int64SliceFlag n (envName L n)
                  (if d = [] then None else Some (map (\<lambda>s. fst (Atoi s)) (Split d CHR '','')))
                  (meta_Hidden m) (meta_Usage m)))
    \<and> (fieldType ft = ''[]string'' \<longrightarrow> flagFromType L ft m =
            Inr (StringSliceFlag n (envName L n)
                  (if d = [] then None else Some (Split d CHR '',''))
                  (meta_Hidden m) (meta_Usage m)))
    \<and> joinSegments (Split d CHR '','') = d
    \<and> (\<forall>w \<in> set (Split d CHR '',''). CHR '','' \<notin> set w)
    \<and> length (Split d CHR '','') = Suc (length (filter (\<lambda>x. x = CHR '','') d))
    \<and> (\<forall>w i. intLiteral w = Some i \<and> - (2 ^ 63) \<le> i \<and> i < 2 ^ 63 \<longrightarrow>
          Atoi w = (word_of_int i, None) \<and> sint (fst (Atoi w)) = i)
    \<and> (\<forall>k < length (Split d CHR '',''). \<forall>i.
          intLiteral (Split d CHR '','' ! k) = Some i \<and> - (2 ^ 63) \<le> i \<and> i < 2 ^ 63 \<longrightarrow>
          sint (map (\<lambda>s. fst (Atoi s)) (Split d CHR '','') ! k) = i)"
proof -
  have old: "(fieldType ft = ''[]int'' \<longrightarrow> flagFromType L ft m =
            Inr (IntSliceFlag n (envName L n)
                  (if d = [] then None else Some (map (\<lambda>s. fst (Atoi s)) (Split d CHR '','')))
                  (meta_Hidden m) (meta_Usage m)))
    \<and> (fieldType ft = ''[]int64'' \<longrightarrow> flagFromType L ft m =
            Inr (Int64SliceFlag n (envName L n)
                  (if d = [] then None else Some (map (\<lambda>s. fst (Atoi s)) (Split d CHR '','')))
                  (meta_Hidden m) (meta_Usage m)))
    \<and> (fieldType ft = ''[]string'' \<longrightarrow> flagFromType L ft m =
            Inr (StringSliceFlag n (envName L n)
                  (if d = [] then None else Some (Split d CHR '',''))
                  (meta_Hidden m) (meta_Usage m)))
    \<and> joinSegments (Split d CHR '','') = d
    \<and> (\<forall>w \<in> set (Split d CHR '',''). CHR '','' \<notin> set w)
    \<and> length (Split d CHR '','') = Suc (length (filter (\<lambda>x. x = CHR '','') d))"
    using assms
    by (auto simp: flagFromType_def Let_def joinSegments_Split Split_length dest: Split_no_sep)
  have lit: "Atoi w = (word_of_int i, None) \<and> sint (fst (Atoi w)) = i"
    if "intLiteral w = Some i \<and> - (2 ^ 63) \<le> i \<and> i < 2 ^ 63" for w i
  proof -
    from that have a: "Atoi w = (word_of_int i, None)" by (intro Atoi_literal) simp_all
    have "sint (word_of_int i :: 64 word) = i"
      using that by (simp add: sint_sbintrunc' signed_take_bit_int_eq_self)
    with a show ?thesis by simp
  qed
  have el: "sint (map (\<lambda>s. fst (Atoi s)) (Split d CHR '','') ! k) = i"
    if "k < length (Split d CHR '','')"
      "intLiteral (Split d CHR '','' ! k) = Some i \<and> - (2 ^ 63) \<le> i \<and> i < 2 ^ 63" for k i
    using lit[OF that(2), THEN conjunct2] by (simp only: nth_map[OF that(1)])
  from old lit el show ?thesis by blast
qed

lemma ev_int_literals:
  "intLiteral ''1'' = Some 1" "intLiteral ''-2'' = Some (- 2)" "intLiteral ''3'' = Some 3"
  "intLiteral ''x'' = None"
  "Split ''1,-2,3'' CHR '','' = [''1'', ''-2'', ''3'']"
  by (simp_all add: intLiteral_def isDecimal_def decimalValue_def digitTable_def)


theorem list_defaults_witness:
  "fieldType tagsField \<in> set [''[]int'', ''[]int64'', ''[]string'']
   \<and> flagFromType sampleLib tagsField
        (empty_commandMetadata\<lparr>meta_Name := ''Labels'', meta_Default := [quote] @ ''a,b'' @ [quote]\<rparr>) =
       Inr (StringSliceFlag ''labels'' ''LABELS'' (Some [''a'', ''b'']) False [])
   \<and> flagFromType sampleLib tagsField (empty_commandMetadata\<lparr>meta_Name := ''Labels''\<rparr>) =
       Inr (StringSliceFlag ''labels'' ''LABELS'' None False [])
   \<and> fieldType (portField\<lparr>fieldType := ''[]int''\<rparr>) \<in> set [''[]int'', ''[]int64'', ''[]string'']
   \<and> intLiteral ''1'' = Some 1 \<and> intLiteral ''-2'' = Some (- 2) \<and> intLiteral ''3'' = Some 3
   \<and> Atoi ''-2'' = (- 2, None) \<and> sint (fst (Atoi ''-2'')) = - 2
   \<and> flagFromType sampleLib (portField\<lparr>fieldType := ''[]int''\<rparr>)
        (empty_commandMetadata\<lparr>meta_Default := [quote] @ ''1,-2,3'' @ [quote]\<rparr>) =
       Inr (IntSliceFlag ''port'' ''PORT'' (Some [1, - 2, 3]) False [])"
proof -
  let ?m = "empty_commandMetadata\<lparr>meta_Name := ''Labels'', meta_Default := [quote] @ ''a,b'' @ [quote]\<rparr>"
  let ?mz = "empty_commandMetadata\<lparr>meta_Name := ''Labels''\<rparr>"
  let ?mi = "empty_commandMetadata\<lparr>meta_Default := [quote] @ ''1,-2,3'' @ [quote]\<rparr>"
  let ?fi = "portField\<lparr>fieldType := ''[]int''\<rparr>"
  have h1: "fieldType tagsField \<in> set [''[]int'', ''[]int64'', ''[]string'']"
    by (simp add: sample_fields)
  have h1i: "fieldType ?fi \<in> set [''[]int'', ''[]int64'', ''[]string'']" by simp
  have ty: "fieldType tagsField = ''[]string''" by (simp add: sample_fields)
  have tyi: "fieldType ?fi = ''[]int''" by simp
  have "Trim (meta_Default ?m) [quote] = ''a,b''"
    by (simp add: Trim_def empty_commandMetadata_def)
  then have h2: "''a,b'' = Trim (meta_Default ?m) [quote]" by (rule sym)
  have "Trim (meta_Default ?mz) [quote] = []"
    by (simp add: Trim_def empty_commandMetadata_def)
  then have h2': "[] = Trim (meta_Default ?mz) [quote]" by (rule sym)
  have "Trim (meta_Default ?mi) [quote] = ''1,-2,3''"
    by (simp add: Trim_def empty_commandMetadata_def)
  then have h2i: "''1,-2,3'' = Trim (meta_Default ?mi) [quote]" by (rule sym)
  have h3: "''labels'' = flagName sampleLib (fieldName tagsField) (meta_Name ?m)"
    "''labels'' = flagName sampleLib (fieldName tagsField) (meta_Name ?mz)"
    "''port'' = flagName sampleLib (fieldName ?fi) (meta_Name ?mi)"
    by (simp_all add: sample_fields ev_names empty_commandMetadata_def)
  have mm: "meta_Hidden ?m = False" "meta_Usage ?m = []" "meta_Hidden ?mz = False"
    "meta_Usage ?mz = []" "meta_Hidden ?mi = False" "meta_Usage ?mi = []"
    by (simp_all add: empty_commandMetadata_def)
  have sp: "Split ''a,b'' CHR '','' = [''a'', ''b'']" by simp
  note a = list_defaults[OF h1 h2 h3(1), unfolded ev_names mm]
  note b = list_defaults[OF h1 h2' h3(2), unfolded ev_names mm]
  note c = list_defaults[OF h1i h2i h3(3), unfolded ev_names mm]
  from a ty have 1: "flagFromType sampleLib tagsField ?m =
      Inr (StringSliceFlag ''labels'' ''LABELS''
        (if ''a,b'' = [] then None else Some (Split ''a,b'' CHR '','')) False [])"
    by blast
  from b ty have 2: "flagFromType sampleLib tagsField ?mz =
      Inr (StringSliceFlag ''labels'' ''LABELS''
        (if ([] :: string) = [] then None else Some (Split [] CHR '','')) False [])"
    by blast
  note lit = c[THEN conjunct2, THEN conjunct2, THEN conjunct2, THEN conjunct2, THEN conjunct2,
      THEN conjunct2, THEN conjunct1, rule_format]
  have l1: "Atoi ''1'' = (word_of_int 1, None)" by (rule lit[THEN conjunct1]) (simp add: ev_int_literals)
  have l2: "Atoi ''-2'' = (word_of_int (- 2), None)"
    by (rule lit[THEN conjunct1]) (simp add: ev_int_literals)
  have l2': "sint (fst (Atoi ''-2'')) = - 2"
    by (rule lit[THEN conjunct2]) (simp add: ev_int_literals)
  have l3: "Atoi ''3'' = (word_of_int 3, None)" by (rule lit[THEN conjunct1]) (simp add: ev_int_literals)
  from c[THEN conjunct1, rule_format, OF tyi]
  have 3: "flagFromType sampleLib ?fi ?mi =
       Inr (IntSliceFlag ''port'' ''PORT'' (Some [1, - 2, 3]) False [])"
    by (simp add: ev_int_literals(5) l1 l2 l3)
  have l2s: "Atoi ''-2'' = (- 2, None)" using l2 by simp
  from 1 2 have 1: "flagFromType sampleLib tagsField ?m =
       Inr (StringSliceFlag ''labels'' ''LABELS'' (Some [''a'', ''b'']) False [])"
    and 2: "flagFromType sampleLib tagsField ?mz =
       Inr (StringSliceFlag ''labels'' ''LABELS'' None False [])"
    by simp_all
  from h1 1 2 h1i ev_int_literals(1,2,3) l2s l2' 3 show ?thesis by (intro conjI)
qed

text \<open>
  C5. For a field of type \<^verbatim>\<open>bool\<close>, with \<open>d\<close> the default literal without its quotes:
  when \<open>d\<close> is a literal for true the flag is a \<^verbatim>\<open>BoolTFlag\<close>, else (a literal for
  false, no default, or anything else) it is a \<^verbatim>\<open>BoolFlag\<close>; and in a context that holds
  the default of the flag, that is where the flag was not given, \<^verbatim>\<open>Flags\<close> reads true for
  the first kind and false for the second.
\<close>

theorem bool_polarity:
  assumes "fieldType ft = ''bool''"
    and "d = Trim (meta_Default m) [quote]"
    and "n = flagName L (fieldName ft) (meta_Name m)"
  shows "(d \<in> set [''1'', ''t'', ''T'', ''TRUE'', ''true'', ''True''] \<longrightarrow>
            flagFromType L ft m = Inr (BoolTFlag n (envName L n) (meta_Hidden m) (meta_Usage m)))
    \<and> (d \<notin> set [''1'', ''t'', ''T'', ''TRUE'', ''true'', ''True''] \<longrightarrow>
            flagFromType L ft m = Inr (BoolFlag n (envName L n) (meta_Hidden m) (meta_Usage m)))
    \<and> (meta_Default m = [] \<longrightarrow>
            flagFromType L ft m = Inr (BoolFlag n (envName L n) (meta_Hidden m) (meta_Usage m)))
    \<and> (\<forall>fl. flagFromType L ft m = Inr fl \<longrightarrow> preloaded c fl \<longrightarrow>
            contextValue L c ''bool'' (GetName fl) =
              Some (BoolVal (d \<in> set [''1'', ''t'', ''T'', ''TRUE'', ''true'', ''True''])))"
  using assms
  by (auto simp: flagFromType_def Let_def ParseBool_def Trim_def contextValue_def)



theorem bool_polarity_witness:
  "fieldType verboseField = ''bool''
   \<and> flagFromType sampleLib verboseField
        (empty_commandMetadata\<lparr>meta_Default := ''true'', meta_Hidden := True\<rparr>) =
       Inr (BoolTFlag ''verbose'' ''VERBOSE'' True [])
   \<and> preloaded sampleContext (BoolTFlag ''verbose'' ''VERBOSE'' True [])
   \<and> (contextValue sampleLib sampleContext ''bool'' ''verbose'' :: (int, unit) val option) =
       Some (BoolVal True)"
proof -
  let ?m = "empty_commandMetadata\<lparr>meta_Default := ''true'', meta_Hidden := True\<rparr>"
  have h1: "fieldType verboseField = ''bool''" by (simp add: sample_fields)
  have "Trim (meta_Default ?m) [quote] = ''true''"
    by (simp add: Trim_def empty_commandMetadata_def)
  then have h2: "''true'' = Trim (meta_Default ?m) [quote]" by (rule sym)
  have h3: "''verbose'' = flagName sampleLib (fieldName verboseField) (meta_Name ?m)"
    by (simp add: sample_fields ev_names empty_commandMetadata_def)
  have p: "preloaded sampleContext (BoolTFlag ''verbose'' ''VERBOSE'' True [])"
    by (simp add: sampleContext_def)
  have t: "''true'' \<in> set [''1'', ''t'', ''T'', ''TRUE'', ''true'', ''True'']" by simp
  have mm: "meta_Hidden ?m = True" "meta_Usage ?m = []"
    by (simp_all add: empty_commandMetadata_def)
  note b = bool_polarity[OF h1 h2 h3, where c = sampleContext, unfolded ev_names mm]
  from b t have f: "flagFromType sampleLib verboseField ?m =
       Inr (BoolTFlag ''verbose'' ''VERBOSE'' True [])" by blast
  note r = b[THEN conjunct2, THEN conjunct2, THEN conjunct2, rule_format, OF f p]
  from r have "(contextValue sampleLib sampleContext ''bool'' ''verbose'' :: (int, unit) val option) =
      Some (BoolVal True)"
    by simp
  with h1 f p show ?thesis by simp
qed

subsection \<open>Literals that the parsers refuse\<close>






lemma ParseBool_error:
  "(snd (ParseBool s) \<noteq> None) = (s \<notin> set boolLiterals)"
proof -
  let ?T = "[''1'', ''t'', ''T'', ''TRUE'', ''true'', ''True'']"
  let ?F = "[''0'', ''f'', ''F'', ''FALSE'', ''false'', ''False'']"
  have b: "boolLiterals = ?T @ ?F"
    unfolding boolLiterals_def by (simp only: append.simps)
  have m: "(s \<in> set boolLiterals) = (s \<in> set ?T \<or> s \<in> set ?F)"
    unfolding b by (simp only: set_append Un_iff)
  show ?thesis
  proof (cases "s \<in> set ?T")
    case True
    then have "ParseBool s = (True, None)"
      unfolding ParseBool_def by (simp only: if_True)
    with True show ?thesis by (simp only: m snd_conv simp_thms)
  next
    case False
    note nt = this
    show ?thesis
    proof (cases "s \<in> set ?F")
      case True
      with nt have "ParseBool s = (False, None)"
        unfolding ParseBool_def by (simp only: if_True if_False)
      with True show ?thesis by (simp only: m snd_conv simp_thms)
    next
      case False
      with nt have "ParseBool s = (False, Some (NumError ''ParseBool'' s ErrSyntax))"
        unfolding ParseBool_def by (simp only: if_False)
      with nt False show ?thesis by (simp only: m snd_conv simp_thms option.distinct)
    qed
  qed
qed

lemma ParseBool_error_False:
  "snd (ParseBool s) \<noteq> None \<Longrightarrow> fst (ParseBool s) = False"
  unfolding ParseBool_def
  by (simp only: split: if_splits) (simp_all only: fst_conv snd_conv simp_thms)





lemma sections_single:
  "closedSegment s \<Longrightarrow> parseMeta_sections s = [s]"
  using sections_join[of "[s]"] by (simp add: parseMeta_sections_def FieldsFunc_def)

lemma parseMeta_loop_hidden:
  "parseMeta_loop cm [''hidden:'' @ v] =
     (case ParseBool v of
        (b, None) \<Rightarrow> Inr (cm\<lparr>meta_Hidden := b\<rparr>)
      | (b, Some err) \<Rightarrow>
          Inl (Wrap err (''failed to parse '' @ [quote] @ ''hidden'' @ [quote] @ '' as a bool'')))"
  by (simp add: SplitN2_def split: prod.splits option.splits)

lemma parseMeta_hidden:
  assumes "closedSegment (''hidden:'' @ v)"
  shows "parseMeta (''hidden:'' @ v) =
     (case ParseBool v of
        (b, None) \<Rightarrow> Inr (empty_commandMetadata\<lparr>meta_Hidden := b\<rparr>)
      | (b, Some err) \<Rightarrow>
          Inl (Wrap err (''failed to parse '' @ [quote] @ ''hidden'' @ [quote] @ '' as a bool'')))"
  unfolding parseMeta_def sections_single[OF assms] by (rule parseMeta_loop_hidden)


lemma ParseBool_good:
  assumes "s \<in> set boolLiterals"
  shows "\<exists>b. ParseBool s = (b, None)"
proof -
  have "snd (ParseBool s) = None"
    using assms ParseBool_error[of s] by (simp only: simp_thms)
  then show ?thesis by (cases "ParseBool s") (simp only: snd_conv, blast)
qed



lemma ParseBool_value:
  assumes "s \<in> set boolLiterals"
  shows "ParseBool s = (s \<in> set [''1'', ''t'', ''T'', ''TRUE'', ''true'', ''True''], None)"
proof -
  let ?T = "[''1'', ''t'', ''T'', ''TRUE'', ''true'', ''True'']"
  let ?F = "[''0'', ''f'', ''F'', ''FALSE'', ''false'', ''False'']"
  have b: "boolLiterals = ?T @ ?F"
    unfolding boolLiterals_def by (simp only: append.simps)
  have m: "(s \<in> set boolLiterals) = (s \<in> set ?T \<or> s \<in> set ?F)"
    unfolding b by (simp only: set_append Un_iff)
  show ?thesis
  proof (cases "s \<in> set ?T")
    case True
    then have "ParseBool s = (True, None)"
      unfolding ParseBool_def by (simp only: if_True)
    with True show ?thesis by (simp only: simp_thms)
  next
    case False
    with assms m have f: "s \<in> set ?F" by (simp only: simp_thms)
    with False have "ParseBool s = (False, None)"
      unfolding ParseBool_def by (simp only: if_True if_False)
    with False show ?thesis by (simp only: simp_thms)
  qed
qed




lemma ParseUint_loop_range:
  "ParseUint_loop n s = (v, Some ErrRange) \<Longrightarrow> v = maxUint64"
  by (induction n s rule: ParseUint_loop.induct) (auto split: if_splits)













subsection \<open>The sample structs through \<^verbatim>\<open>commandFromObject\<close> and \<^verbatim>\<open>Flags\<close>\<close>

lemma ev_parse:
  "ParseInt ''8080'' = (8080, None)"
  "sampleDuration ''5s'' = (5000000000, None)"
  "Trim ''8080'' [quote] = ''8080''" "Trim ''true'' [quote] = ''true''"
  "Trim ''5s'' [quote] = ''5s''" "Trim ([quote] @ ''a,b'' @ [quote]) [quote] = ''a,b''"
  "ParseBool ''true'' = (True, None)"
  "ToLower sampleLib ''Serve'' = ''serve''" "ToLower sampleLib ''Version'' = ''version''"
  by (simp_all add: ParseInt_def ParseUint_nat_def isDigit_def digitVal_def maxUint64_def
      sampleDuration_def Trim_def ParseBool_def sampleLib_def asciiLower_def)

lemma ev_flags:
  "flagFromType sampleLib portField (empty_commandMetadata\<lparr>meta_Default := ''8080''\<rparr>) =
     Inr (IntFlag ''port'' ''PORT'' 8080 False [])"
  "flagFromType sampleLib verboseField
     (empty_commandMetadata\<lparr>meta_Default := ''true'', meta_Hidden := True\<rparr>) =
     Inr (BoolTFlag ''verbose'' ''VERBOSE'' True [])"
  "flagFromType sampleLib timeoutField (empty_commandMetadata\<lparr>meta_Default := ''5s''\<rparr>) =
     Inr (DurationFlag ''idle-timeout'' ''IDLE_TIMEOUT'' 5000000000 False [])"
  "flagFromType sampleLib tagsField
     (empty_commandMetadata\<lparr>meta_Name := ''Labels'', meta_Default := [quote] @ ''a,b'' @ [quote]\<rparr>) =
     Inr (StringSliceFlag ''labels'' ''LABELS'' (Some [''a'', ''b'']) False [])"
proof -
  have d: "ParseDuration sampleLib = sampleDuration" by (simp add: sampleLib_def)
  show "flagFromType sampleLib portField (empty_commandMetadata\<lparr>meta_Default := ''8080''\<rparr>) =
     Inr (IntFlag ''port'' ''PORT'' 8080 False [])"
    by (simp add: flagFromType_def Let_def sample_fields empty_commandMetadata_def ev_names
        ev_parse(1,3))
  show "flagFromType sampleLib verboseField
     (empty_commandMetadata\<lparr>meta_Default := ''true'', meta_Hidden := True\<rparr>) =
     Inr (BoolTFlag ''verbose'' ''VERBOSE'' True [])"
    by (simp add: flagFromType_def Let_def sample_fields empty_commandMetadata_def ev_names
        ev_parse(4,7))
  show "flagFromType sampleLib timeoutField (empty_commandMetadata\<lparr>meta_Default := ''5s''\<rparr>) =
     Inr (DurationFlag ''idle-timeout'' ''IDLE_TIMEOUT'' 5000000000 False [])"
    by (simp add: flagFromType_def Let_def sample_fields empty_commandMetadata_def ev_names
        ev_parse(2,5) d)
  have t: "Trim (CHR 0x27 # ''a,b'' @ [quote]) [quote] = ''a,b''"
    using ev_parse(6) by simp
  show "flagFromType sampleLib tagsField
     (empty_commandMetadata\<lparr>meta_Name := ''Labels'', meta_Default := [quote] @ ''a,b'' @ [quote]\<rparr>) =
     Inr (StringSliceFlag ''labels'' ''LABELS'' (Some [''a'', ''b'']) False [])"
    by (simp add: flagFromType_def Let_def sample_fields empty_commandMetadata_def ev_names
        Trim_def)
qed

lemma ev_eligible:
  "\<not> HasPrefix (fieldName commandField) ''Flag''" "HasPrefix (fieldName portField) ''Flag''"
  "\<not> HasPrefix (fieldName counterField) ''Flag''" "HasPrefix (fieldName verboseField) ''Flag''"
  "HasPrefix (fieldName timeoutField) ''Flag''" "HasPrefix (fieldName tagsField) ''Flag''"
  by (simp_all add: sample_fields HasPrefix_def)

lemma ev_getCommand:
  "getCommand commandField (CommandVal sampleCommand) =
     Inr (sampleCommand\<lparr>cmd_Usage := ''serve files, fast'', cmd_Flags := []\<rparr>)"
  by (simp add: getCommand_def ev_command_meta sample_fields)

lemma ev_serve_command:
  "commandFromObject sampleLib (StructObj ''Serve'' serveFields) = Inr serveCommand"
proof -
  have "commandFromObject sampleLib (StructObj ''Serve'' serveFields) =
     Inr (sampleCommand\<lparr>cmd_Usage := ''serve files, fast'', cmd_Name := ''serve'',
          cmd_Flags :=
            [IntFlag ''port'' ''PORT'' 8080 False [],
             BoolTFlag ''verbose'' ''VERBOSE'' True [],
             DurationFlag ''idle-timeout'' ''IDLE_TIMEOUT'' 5000000000 False [],
             StringSliceFlag ''labels'' ''LABELS'' (Some [''a'', ''b'']) False []]\<rparr>)"
    by (simp add: commandFromObject_def serveFields_def ev_getCommand ev_port_meta
        ev_verbose_meta ev_timeout_meta ev_tags_meta ev_counter_meta ev_flags
        ev_flags(4)[simplified] HasPrefix_def
        sample_fields ev_parse(8))
  then show ?thesis by (simp add: sampleCommand_def serveCommand_def versionCommand_def)
qed

lemma ev_version_command:
  "commandFromObject sampleLib (StructObj ''Version'' versionFields) = Inr versionCommand"
proof -
  have "commandFromObject sampleLib (StructObj ''Version'' versionFields) =
     Inr (sampleCommand\<lparr>cmd_Usage := ''serve files, fast'', cmd_Flags := [],
            cmd_Name := ''version''\<rparr>)"
    by (simp add: commandFromObject_def versionFields_def ev_getCommand ev_parse(9))
  then show ?thesis by (simp add: sampleCommand_def serveCommand_def versionCommand_def)
qed

lemma ev_context:
  "(contextValue sampleLib sampleContext ''int'' ''port'' :: (int, unit) val option) =
     Some (IntVal 8080)"
  "(contextValue sampleLib sampleContext ''bool'' ''verbose'' :: (int, unit) val option) =
     Some (BoolVal True)"
  "(contextValue sampleLib sampleContext ''time.Duration'' ''idle-timeout'' :: (int, unit) val option) =
     Some (IntVal 5000000000)"
  "(contextValue sampleLib sampleContext ''[]string'' ''labels'' :: (int, unit) val option) =
     Some (StringSliceVal [''a'', ''b''])"
  by (simp_all add: contextValue_def sampleContext_def genericSliceOf_def)

lemma ev_serve_Flags:
  "Flags sampleLib (StructObj ''Serve'' serveFields) sampleContext =
     Inr [(''Command'', ZeroOf ''cli.Command''), (''FlagPort'', IntVal 8080),
          (''Counter'', IntVal 0), (''FlagVerbose'', BoolVal True),
          (''FlagIdleTimeout'', IntVal 5000000000),
          (''FlagTags'', StringSliceVal [''a'', ''b''])]"
  by (simp add: Flags_def serveFields_def ev_command_meta ev_port_meta
      ev_verbose_meta ev_timeout_meta ev_tags_meta ev_counter_meta ev_flags
        ev_flags(4)[simplified] HasPrefix_def
      sample_fields ev_context zeroValue_def)


subsection \<open>One command or several\<close>

lemma commandFromObject_loop_keeps:
  "commandFromObject_loop L cmd fts = Inr cmd' \<Longrightarrow>
   cmd_Name cmd' = cmd_Name cmd \<and> cmd_Usage cmd' = cmd_Usage cmd \<and>
   cmd_Action cmd' = cmd_Action cmd"
proof (induction fts arbitrary: cmd)
  case Nil
  then show ?case by simp
next
  case (Cons ft fts)
  from Cons.prems obtain m where m: "parseMeta (fieldTag ft) = Inr m"
    by (cases "parseMeta (fieldTag ft)") simp_all
  show ?case
  proof (cases "HasPrefix (fieldName ft) ''Flag''")
    case True
    with Cons.prems m obtain fl where fl: "flagFromType L ft m = Inr fl"
      by (cases "flagFromType L ft m") simp_all
    with Cons.prems m True
    have "commandFromObject_loop L (cmd\<lparr>cmd_Flags := cmd_Flags cmd @ [fl]\<rparr>) fts = Inr cmd'"
      by simp
    from Cons.IH[OF this] show ?thesis by simp
  next
    case False
    with Cons.prems m have "commandFromObject_loop L cmd fts = Inr cmd'" by simp
    from Cons.IH[OF this] show ?thesis .
  qed
qed

lemma commandFromObject_struct:
  assumes "commandFromObject L obj = Inr cmd"
  shows "\<exists>tn ft0 fv0 rest cmd0.
    obj \<noteq> NilObj \<and> deref obj = StructObj tn ((ft0, fv0) # rest) \<and> tn \<noteq> [] \<and>
    getCommand ft0 fv0 = Inr cmd0 \<and>
    commandFromObject_loop L (cmd0\<lparr>cmd_Name := ToLower L tn\<rparr>) (map fst rest) = Inr cmd"
proof -
  from assms have n: "obj \<noteq> NilObj" by (auto simp: commandFromObject_def)
  show ?thesis
  proof (cases "deref obj")
    case (StructObj tn flds)
    with assms n have tn: "tn \<noteq> []" by (auto simp: commandFromObject_def split: if_splits)
    from assms n StructObj tn obtain ft0 fv0 rest where f: "flds = (ft0, fv0) # rest"
      by (cases flds) (auto simp: commandFromObject_def)
    from assms n StructObj tn f obtain cmd0 where g: "getCommand ft0 fv0 = Inr cmd0"
      by (cases "getCommand ft0 fv0") (auto simp: commandFromObject_def)
    from assms n StructObj tn f g
    have "commandFromObject_loop L (cmd0\<lparr>cmd_Name := ToLower L tn\<rparr>) (map fst rest) = Inr cmd"
      by (simp add: commandFromObject_def)
    with n StructObj tn f g show ?thesis by blast
  qed (use assms n in \<open>auto simp: commandFromObject_def split: if_splits\<close>)
qed

lemma commandFromObject_name:
  assumes "commandFromObject L obj = Inr cmd"
  shows "\<exists>tn flds. deref obj = StructObj tn flds \<and> tn \<noteq> [] \<and> cmd_Name cmd = ToLower L tn"
proof -
  from commandFromObject_struct[OF assms] obtain tn ft0 fv0 rest cmd0 where
    d: "deref obj = StructObj tn ((ft0, fv0) # rest)" and tn: "tn \<noteq> []" and
    l: "commandFromObject_loop L (cmd0\<lparr>cmd_Name := ToLower L tn\<rparr>) (map fst rest) = Inr cmd"
    by blast
  from commandFromObject_loop_keeps[OF l] have "cmd_Name cmd = ToLower L tn" by simp
  with d tn show ?thesis by blast
qed

lemma build_loop_ok:
  "list_all2 (\<lambda>obj cmd. commandFromObject L obj = Inr cmd) objs cmds \<Longrightarrow>
   build_loop L acc objs = Inr (acc @ cmds)"
  by (induction objs cmds arbitrary: acc rule: list_all2_induct) simp_all

text \<open>
  C3. Let every object give a command, and let the new application have no commands,
  as \<^verbatim>\<open>cli.NewApp()\<close> makes it. With one object, \<^verbatim>\<open>build\<close> returns an application whose
  usage, action and flags are those of the one command, and it has no subcommands. With
  more than one, the application has the commands as its subcommands, in order, each with
  the lower-cased name of its struct type, and no flags of its own.
\<close>

theorem build_flattening:
  assumes "list_all2 (\<lambda>obj cmd. commandFromObject L obj = Inr cmd) objs cmds"
    and "app_Commands NewApp = []"
  shows "(length objs = 1 \<longrightarrow>
           (\<exists>app. build L NewApp objs = Inr app \<and>
              app_Usage app = cmd_Usage (hd cmds) \<and> app_Action app = cmd_Action (hd cmds) \<and>
              app_Flags app = cmd_Flags (hd cmds) \<and> app_Commands app = []))
    \<and> (length objs > 1 \<longrightarrow>
           (\<exists>app. build L NewApp objs = Inr app \<and>
              app_Commands app = cmds \<and> app_Flags app = [] \<and> length cmds = length objs \<and>
              (\<forall>i < length objs. \<exists>tn flds.
                 deref (objs ! i) = StructObj tn flds \<and> tn \<noteq> [] \<and>
                 cmd_Name (cmds ! i) = ToLower L tn)))"
proof -
  have len: "length cmds = length objs"
    using assms(1) by (simp add: list_all2_lengthD)
  have loop: "build_loop L [] objs = Inr cmds"
    using build_loop_ok[OF assms(1), of "[]"] by simp
  have one: "length objs = 1 \<Longrightarrow> build L NewApp objs =
      Inr (NewApp\<lparr>app_Usage := cmd_Usage (hd cmds), app_Action := cmd_Action (hd cmds),
                  app_Flags := cmd_Flags (hd cmds)\<rparr>)"
  proof -
    assume o: "length objs = 1"
    with len have "cmds \<noteq> []" by auto
    then have "cmds ! 0 = hd cmds" by (simp add: hd_conv_nth)
    with o len show ?thesis by (simp add: build_def loop)
  qed
  have many: "length objs > 1 \<Longrightarrow> build L NewApp objs =
      Inr (NewApp\<lparr>app_Commands := cmds, app_Flags := []\<rparr>)"
    using len by (simp add: build_def loop)
  have names: "\<exists>tn flds. deref (objs ! i) = StructObj tn flds \<and> tn \<noteq> [] \<and>
      cmd_Name (cmds ! i) = ToLower L tn" if "i < length objs" for i
  proof -
    have "commandFromObject L (objs ! i) = Inr (cmds ! i)"
      using list_all2_nthD[OF assms(1) that] by simp
    then show ?thesis by (rule commandFromObject_name)
  qed
  show ?thesis
  proof (intro conjI impI)
    assume "length objs = 1"
    from one[OF this] assms(2) show "\<exists>app. build L NewApp objs = Inr app \<and>
              app_Usage app = cmd_Usage (hd cmds) \<and> app_Action app = cmd_Action (hd cmds) \<and>
              app_Flags app = cmd_Flags (hd cmds) \<and> app_Commands app = []"
      by simp
  next
    assume "length objs > 1"
    from many[OF this] len names show "\<exists>app. build L NewApp objs = Inr app \<and>
              app_Commands app = cmds \<and> app_Flags app = [] \<and> length cmds = length objs \<and>
              (\<forall>i < length objs. \<exists>tn flds.
                 deref (objs ! i) = StructObj tn flds \<and> tn \<noteq> [] \<and>
                 cmd_Name (cmds ! i) = ToLower L tn)"
      by simp
  qed
qed

theorem build_flattening_witness:
  "list_all2 (\<lambda>obj cmd. commandFromObject sampleLib obj = Inr cmd)
     [StructObj ''Serve'' serveFields] [serveCommand]
   \<and> list_all2 (\<lambda>obj cmd. commandFromObject sampleLib obj = Inr cmd)
     [Pointer (StructObj ''Serve'' serveFields), StructObj ''Version'' versionFields]
     [serveCommand, versionCommand]
   \<and> app_Commands sampleNewApp = []
   \<and> (\<exists>app. build sampleLib sampleNewApp [StructObj ''Serve'' serveFields] = Inr app \<and>
         app_Usage app = cmd_Usage serveCommand \<and> app_Action app = cmd_Action serveCommand \<and>
         app_Flags app = cmd_Flags serveCommand \<and> app_Commands app = [])
   \<and> (\<exists>app. build sampleLib sampleNewApp
              [Pointer (StructObj ''Serve'' serveFields), StructObj ''Version'' versionFields] =
            Inr app \<and>
         app_Commands app = [serveCommand, versionCommand] \<and> app_Flags app = [])"
proof -
  have p: "commandFromObject sampleLib (Pointer (StructObj ''Serve'' serveFields)) =
      commandFromObject sampleLib (StructObj ''Serve'' serveFields)"
    by (simp add: commandFromObject_def)
  have l1: "list_all2 (\<lambda>obj cmd. commandFromObject sampleLib obj = Inr cmd)
     [StructObj ''Serve'' serveFields] [serveCommand]"
    by (simp add: ev_serve_command)
  have l2: "list_all2 (\<lambda>obj cmd. commandFromObject sampleLib obj = Inr cmd)
     [Pointer (StructObj ''Serve'' serveFields), StructObj ''Version'' versionFields]
     [serveCommand, versionCommand]"
    by (simp add: p ev_serve_command ev_version_command)
  have n: "app_Commands sampleNewApp = []" by (simp add: sampleNewApp_def)
  have a: "\<exists>app. build sampleLib sampleNewApp [StructObj ''Serve'' serveFields] = Inr app \<and>
         app_Usage app = cmd_Usage serveCommand \<and> app_Action app = cmd_Action serveCommand \<and>
         app_Flags app = cmd_Flags serveCommand \<and> app_Commands app = []"
    using build_flattening[OF l1 n, THEN conjunct1] by simp
  have b: "\<exists>app. build sampleLib sampleNewApp
              [Pointer (StructObj ''Serve'' serveFields), StructObj ''Version'' versionFields] =
            Inr app \<and>
         app_Commands app = [serveCommand, versionCommand] \<and> app_Flags app = []"
    using build_flattening[OF l2 n, THEN conjunct2] by auto
  from l1 l2 n a b show ?thesis by (intro conjI)
qed

subsection \<open>The fields that \<^verbatim>\<open>Flags\<close> does not touch\<close>

lemma setFieldByName_length: "length (setFieldByName n v res) = length res"
  by (induction res) auto

lemma setFieldByName_keys: "map fst (setFieldByName n v res) = map fst res"
  by (induction res) auto

lemma setFieldByName_other:
  "i < length res \<Longrightarrow> fst (res ! i) \<noteq> n \<Longrightarrow> setFieldByName n v res ! i = res ! i"
proof (induction res arbitrary: i)
  case Nil
  then show ?case by simp
next
  case (Cons p res)
  obtain k old where p: "p = (k, old)" by (cases p)
  show ?case
  proof (cases i)
    case 0
    with Cons.prems p show ?thesis by simp
  next
    case (Suc j)
    with Cons p show ?thesis by simp
  qed
qed

lemma Flags_loop_frame:
  "Flags_loop L c (res :: (string \<times> ('f, 'a) val) list) fts = Inr res' \<Longrightarrow>
   map fst res' = map fst res \<and>
   (\<forall>i < length res. \<not> HasPrefix (fst (res ! i)) ''Flag'' \<longrightarrow> res' ! i = res ! i)"
proof (induction fts arbitrary: res)
  case Nil
  then show ?case by simp
next
  case (Cons ft fts)
  from Cons.prems obtain m where m: "parseMeta (fieldTag ft) = Inr m"
    by (cases "parseMeta (fieldTag ft)") simp_all
  show ?case
  proof (cases "HasPrefix (fieldName ft) ''Flag''")
    case True
    with Cons.prems m obtain fl where fl: "flagFromType L ft m = Inr fl"
      by (cases "flagFromType L ft m") simp_all
    with Cons.prems m True obtain v :: "('f, 'a) val" where
      v: "contextValue L c (fieldType ft) (GetName fl) = Some v"
      by (cases "contextValue L c (fieldType ft) (GetName fl) :: ('f, 'a) val option") simp_all
    with Cons.prems m True fl
    have r: "Flags_loop L c (setFieldByName (fieldName ft) v res) fts = Inr res'" by simp
    note ih = Cons.IH[OF r]
    have keys: "map fst res' = map fst res"
      using ih by (simp add: setFieldByName_keys)
    have "res' ! i = res ! i" if i: "i < length res" and np: "\<not> HasPrefix (fst (res ! i)) ''Flag''" for i
    proof -
      have ne: "fst (res ! i) \<noteq> fieldName ft" using np True by auto
      have same: "setFieldByName (fieldName ft) v res ! i = res ! i"
        by (rule setFieldByName_other[OF i ne])
      from ih i np same show ?thesis by (simp add: setFieldByName_length)
    qed
    with keys show ?thesis by blast
  next
    case False
    with Cons.prems m have "Flags_loop L c res fts = Inr res'" by simp
    from Cons.IH[OF this] show ?thesis .
  qed
qed

lemma Flags_struct:
  assumes "deref obj = StructObj tn flds"
  shows "Flags L obj c =
     Flags_loop L c (map (\<lambda>ft. (fieldName ft, zeroValue (fieldType ft))) (map fst flds))
       (map fst flds)"
proof -
  from assms have "obj \<noteq> NilObj" by auto
  with assms show ?thesis
    by (simp add: Flags_def case_prod_unfold comp_def)
qed

text \<open>
  C10. When \<^verbatim>\<open>Flags\<close> returns, the result has the fields of the struct, and every field
  whose name does not begin with \<^verbatim>\<open>Flag\<close> (the embedded \<^verbatim>\<open>Command\<close> among them) holds the
  zero value of its type; the values of the template play no part: any other instance with
  the same fields gives the same result.
\<close>

theorem Flags_leaves_other_fields_zero:
  assumes "Flags L obj c = Inr res" and "deref obj = StructObj tn flds"
  shows "length res = length flds
    \<and> (\<forall>i < length flds. \<not> eligible (fst (flds ! i)) \<longrightarrow>
          res ! i = (fieldName (fst (flds ! i)), zeroValue (fieldType (fst (flds ! i)))))
    \<and> (\<forall>tn' flds'. map fst flds' = map fst flds \<longrightarrow>
          Flags L (StructObj tn' flds') c = Inr res)"
proof -
  let ?init = "map (\<lambda>ft. (fieldName ft, zeroValue (fieldType ft))) (map fst flds)"
  have l: "Flags_loop L c ?init (map fst flds) = Inr res"
    using assms by (simp add: Flags_struct)
  note fr = Flags_loop_frame[OF l]
  have len: "length res = length flds"
    using fr[THEN conjunct1] by (metis length_map)
  have z: "res ! i = (fieldName (fst (flds ! i)), zeroValue (fieldType (fst (flds ! i))))"
    if "i < length flds" "\<not> eligible (fst (flds ! i))" for i
    using fr[THEN conjunct2, rule_format, of i] that by (simp add: eligible_def)
  have ind: "Flags L (StructObj tn' flds') c = Inr res" if "map fst flds' = map fst flds" for tn' flds'
    using Flags_struct[of "StructObj tn' flds'" tn' flds' L c] that l by simp
  from len z ind show ?thesis by blast
qed


theorem Flags_leaves_other_fields_zero_witness:
  "Flags sampleLib (Pointer (StructObj ''Serve'' serveFields)) sampleContext =
     Inr [(''Command'', ZeroOf ''cli.Command''), (''FlagPort'', IntVal 8080),
          (''Counter'', IntVal 0), (''FlagVerbose'', BoolVal True),
          (''FlagIdleTimeout'', IntVal 5000000000),
          (''FlagTags'', StringSliceVal [''a'', ''b''])]
   \<and> deref (Pointer (StructObj ''Serve'' serveFields)) = StructObj ''Serve'' serveFields
   \<and> serveFields ! 2 = (counterField, IntVal 7)
   \<and> \<not> eligible (fst (serveFields ! 0)) \<and> \<not> eligible (fst (serveFields ! 2))
   \<and> [(''Command'', ZeroOf ''cli.Command''), (''FlagPort'', IntVal 8080),
        (''Counter'', IntVal 0), (''FlagVerbose'', BoolVal True),
        (''FlagIdleTimeout'', IntVal 5000000000),
        (''FlagTags'', StringSliceVal [''a'', ''b''])] ! 2 =
       (fieldName (fst (serveFields ! 2)),
        (zeroValue (fieldType (fst (serveFields ! 2))) :: (int, unit) val))"
proof -
  let ?res = "[(''Command'', ZeroOf ''cli.Command''), (''FlagPort'', IntVal 8080),
          (''Counter'', IntVal 0), (''FlagVerbose'', BoolVal True),
          (''FlagIdleTimeout'', IntVal 5000000000),
          (''FlagTags'', StringSliceVal [''a'', ''b''])] :: (string \<times> (int, unit) val) list"
  have d: "deref (Pointer (StructObj ''Serve'' serveFields)) = StructObj ''Serve'' serveFields"
    by simp
  have f: "Flags sampleLib (Pointer (StructObj ''Serve'' serveFields)) sampleContext = Inr ?res"
    using ev_serve_Flags by (simp add: Flags_def)
  have i: "serveFields ! 2 = (counterField, IntVal 7)" "(2::nat) < length serveFields"
    by (simp_all add: serveFields_def)
  have e: "\<not> eligible (fst (serveFields ! 0))" "\<not> eligible (fst (serveFields ! 2))"
    by (simp_all add: serveFields_def eligible_def sample_fields HasPrefix_def)
  note t = Flags_leaves_other_fields_zero[OF f d, THEN conjunct2, THEN conjunct1, rule_format,
      OF i(2) e(2)]
  from f d i(1) e t show ?thesis by (intro conjI)
qed


subsection \<open>From the default of a flag back to the field\<close>

lemma genericSliceOf_append: "foldl (\<lambda>acc x. acc @ [x]) a xs = a @ xs"
  by (induction xs arbitrary: a) simp_all

lemma genericSliceOf_id: "genericSliceOf xs = xs"
  by (simp add: genericSliceOf_def genericSliceOf_append)

lemma roundtrip_value:
  assumes "flagFromType L ft m = Inr fl" and "preloaded c fl"
    and "\<forall>s. float32 L (fst (ParseFloat L s 32)) = fst (ParseFloat L s 32)"
  shows "contextValue L c (fieldType ft) (GetName fl) = Some (defaultValue fl)"
  using assms
  by (auto simp: flagFromType_def Let_def contextValue_def genericSliceOf_id split: if_splits)

lemma map_of_setFieldByName:
  "n \<in> fst ` set res \<Longrightarrow> map_of (setFieldByName n v res) = (map_of res)(n \<mapsto> v)"
proof (induction res)
  case Nil
  then show ?case by simp
next
  case (Cons p res)
  obtain k old where p: "p = (k, old)" by (cases p)
  show ?case
  proof (cases "k = n")
    case True
    with p show ?thesis by (simp add: fun_eq_iff)
  next
    case False
    with Cons.prems p have "n \<in> fst ` set res" by auto
    from Cons.IH[OF this] False p show ?thesis by (simp add: fun_eq_iff)
  qed
qed

lemma setFieldByName_names: "fst ` set (setFieldByName n v res) = fst ` set res"
  using setFieldByName_keys[of n v res] by (metis list.set_map)

lemma Flags_loop_values:
  "Flags_loop L c (res :: (string \<times> ('f, 'a) val) list) fts = Inr res' \<Longrightarrow>
   distinct (map fieldName fts) \<Longrightarrow> fieldName ` set fts \<subseteq> fst ` set res \<Longrightarrow>
   (\<forall>n. n \<notin> fieldName ` set fts \<longrightarrow> map_of res' n = map_of res n) \<and>
   (\<forall>ft \<in> set fts. \<forall>m fl. eligible ft \<and> parseMeta (fieldTag ft) = Inr m \<and>
        flagFromType L ft m = Inr fl \<longrightarrow>
        map_of res' (fieldName ft) = contextValue L c (fieldType ft) (GetName fl))"
proof (induction fts arbitrary: res)
  case Nil
  then show ?case by simp
next
  case (Cons ft fts)
  from Cons.prems(1) obtain m where m: "parseMeta (fieldTag ft) = Inr m"
    by (cases "parseMeta (fieldTag ft)") simp_all
  from Cons.prems(2) have d: "distinct (map fieldName fts)" and
    nin: "fieldName ft \<notin> fieldName ` set fts" by auto
  from Cons.prems(3) have inres: "fieldName ft \<in> fst ` set res" and
    sub: "fieldName ` set fts \<subseteq> fst ` set res" by auto
  show ?case
  proof (cases "HasPrefix (fieldName ft) ''Flag''")
    case True
    with Cons.prems(1) m obtain fl where fl: "flagFromType L ft m = Inr fl"
      by (cases "flagFromType L ft m") simp_all
    with Cons.prems(1) m True obtain v :: "('f, 'a) val" where
      v: "contextValue L c (fieldType ft) (GetName fl) = Some v"
      by (cases "contextValue L c (fieldType ft) (GetName fl) :: ('f, 'a) val option") simp_all
    with Cons.prems(1) m True fl
    have r: "Flags_loop L c (setFieldByName (fieldName ft) v res) fts = Inr res'" by simp
    have sub': "fieldName ` set fts \<subseteq> fst ` set (setFieldByName (fieldName ft) v res)"
      using sub by (simp add: setFieldByName_names)
    note ih = Cons.IH[OF r d sub']
    have here: "map_of res' (fieldName ft) = Some v"
      using ih[THEN conjunct1, rule_format, OF nin]
      by (simp add: map_of_setFieldByName[OF inres])
    have other: "map_of res' n = map_of res n" if "n \<notin> fieldName ` set (ft # fts)" for n
    proof -
      from that have a: "n \<notin> fieldName ` set fts" and b: "n \<noteq> fieldName ft" by auto
      from ih[THEN conjunct1, rule_format, OF a] b show ?thesis
        by (simp add: map_of_setFieldByName[OF inres])
    qed
    have vals: "map_of res' (fieldName f) = contextValue L c (fieldType f) (GetName fl')"
      if "f \<in> set (ft # fts)" "eligible f" "parseMeta (fieldTag f) = Inr m'"
        "flagFromType L f m' = Inr fl'" for f m' fl'
    proof (cases "f = ft")
      case True
      with that m fl have "m' = m" "fl' = fl" by simp_all
      with True here v show ?thesis by simp
    next
      case False
      with that have "f \<in> set fts" by simp
      from ih[THEN conjunct2, rule_format, OF this] that show ?thesis by blast
    qed
    from other vals show ?thesis by blast
  next
    case False
    with Cons.prems(1) m have r: "Flags_loop L c res fts = Inr res'" by simp
    note ih = Cons.IH[OF r d sub]
    have other: "map_of res' n = map_of res n" if "n \<notin> fieldName ` set (ft # fts)" for n
      using ih[THEN conjunct1, rule_format, of n] that by auto
    have vals: "map_of res' (fieldName f) = contextValue L c (fieldType f) (GetName fl')"
      if "f \<in> set (ft # fts)" "eligible f" "parseMeta (fieldTag f) = Inr m'"
        "flagFromType L f m' = Inr fl'" for f m' fl'
    proof -
      from that False have "f \<noteq> ft" by (auto simp: eligible_def)
      with that have "f \<in> set fts" by simp
      from ih[THEN conjunct2, rule_format, OF this] that show ?thesis by blast
    qed
    from other vals show ?thesis by blast
  qed
qed

lemma Flags_loop_returns:
  "\<forall>f \<in> set fts. fieldOK f \<Longrightarrow>
   \<exists>res'. Flags_loop L c (res :: (string \<times> ('f, 'a) val) list) fts = Inr res'"
proof (induction fts arbitrary: res)
  case Nil
  then show ?case by simp
next
  case (Cons f fts)
  then have ok: "fieldOK f" by simp
  then obtain mf where mf: "parseMeta (fieldTag f) = Inr mf"
    using fieldOK_parse by blast
  show ?case
  proof (cases "eligible f")
    case True
    then obtain fl where fl: "flagFromType L f mf = Inr fl"
      using fieldOK_flag[OF ok True mf] by blast
    from ok True mf have "fieldType f \<in> set supportedTypes"
      by (simp add: fieldOK_def)
    then obtain v :: "('f, 'a) val"
      where v: "contextValue L c (fieldType f) (GetName fl) = Some v"
      using contextValue_supported by blast
    from Cons show ?thesis
      using True mf fl v by (simp add: eligible_def)
  next
    case False
    with Cons mf show ?thesis by (simp add: eligible_def)
  qed
qed

lemma ParseUint_literal:
  assumes "isDecimal s" and "decimalValue s < 2 ^ 64"
  shows "ParseUint s = (of_nat (decimalValue s), None)"
proof -
  from assms(2) have "decimalValue s \<le> maxUint64" by (simp add: maxUint64_def)
  from ParseUint_nat_decimal[OF assms(1) this] show ?thesis by (simp add: ParseUint_def)
qed

lemma coercedDefault_flag:
  assumes "flagFromType L ft m = Inr fl"
    and "coercedDefault L (fieldType ft) (Trim (meta_Default m) [quote]) = Some v"
  shows "defaultValue fl = v"
proof -
  let ?d = "Trim (meta_Default m) [quote]"
  let ?t = "fieldType ft"
  consider (int) "?t \<in> set [''int'', ''int64'']" | (uint) "?t \<in> set [''uint'', ''uint64'']"
    | (flt) "?t \<in> set [''float32'', ''float64'']" | (bool) "?t = ''bool''"
    | (str) "?t = ''string''" | (dur) "?t = ''time.Duration''"
    | (ints) "?t \<in> set [''[]int'', ''[]int64'']" | (strs) "?t = ''[]string''"
    | (none) "?t \<notin> set supportedTypes"
    by (auto simp: supportedTypes_def)
  then show ?thesis
  proof cases
    case int
    with assms(2) obtain i where i: "intLiteral ?d = Some i" "- (2 ^ 63) \<le> i" "i < 2 ^ 63"
      and v: "v = IntVal (word_of_int i)"
      by (auto simp: coercedDefault_def split: option.splits if_splits)
    from ParseInt_literal[OF i] have "fst (ParseInt ?d) = word_of_int i" by simp
    with int assms(1) v show ?thesis by (auto simp: flagFromType_def Let_def)
  next
    case uint
    with assms(2) have i: "isDecimal ?d" "decimalValue ?d < 2 ^ 64"
      and v: "v = UintVal (of_nat (decimalValue ?d))"
      by (auto simp: coercedDefault_def split: if_splits)
    from ParseUint_literal[OF i] have "fst (ParseUint ?d) = of_nat (decimalValue ?d)" by simp
    with uint assms(1) v show ?thesis by (auto simp: flagFromType_def Let_def)
  next
    case flt
    with assms show ?thesis
      by (auto simp: coercedDefault_def flagFromType_def Let_def split: prod.splits option.splits)
  next
    case bool
    let ?T = "[''1'', ''t'', ''T'', ''TRUE'', ''true'', ''True'']"
    let ?F = "[''0'', ''f'', ''F'', ''FALSE'', ''false'', ''False'']"
    have b: "boolLiterals = ?T @ ?F" by (simp add: boolLiterals_def)
    have c: "coercedDefault L ''bool'' ?d =
        (if ?d \<in> set ?T then Some (BoolVal True)
         else if ?d \<in> set ?F then Some (BoolVal False) else (None :: ('a, 'b) val option))"
      by (simp add: coercedDefault_def)
    from assms(2) bool have cv: "(if ?d \<in> set ?T then Some (BoolVal True)
         else if ?d \<in> set ?F then Some (BoolVal False) else None) = Some v"
      by (simp only: c)
    have fl: "flagFromType L ft m =
        (if \<not> fst (ParseBool ?d)
         then Inr (BoolFlag (flagName L (fieldName ft) (meta_Name m))
                    (envName L (flagName L (fieldName ft) (meta_Name m)))
                    (meta_Hidden m) (meta_Usage m))
         else Inr (BoolTFlag (flagName L (fieldName ft) (meta_Name m))
                    (envName L (flagName L (fieldName ft) (meta_Name m)))
                    (meta_Hidden m) (meta_Usage m)))"
      using bool by (simp add: flagFromType_def Let_def)
    show ?thesis
    proof (cases "?d \<in> set ?T")
      case True
      then have "?d \<in> set boolLiterals" by (simp only: b set_append UnI1)
      from ParseBool_value[OF this] True have "fst (ParseBool ?d)"
        by (simp only: fst_conv)
      moreover from cv True have "v = BoolVal True" by (simp only: if_True option.inject)
      ultimately show ?thesis using assms(1) fl by auto
    next
      case False
      show ?thesis
      proof (cases "?d \<in> set ?F")
        case True
        then have "?d \<in> set boolLiterals" by (simp only: b set_append UnI2)
        from ParseBool_value[OF this] False have "\<not> fst (ParseBool ?d)"
          by (simp only: fst_conv not_False_eq_True)
        moreover from cv False True have "v = BoolVal False"
          by (simp only: if_True if_False option.inject)
        ultimately show ?thesis using assms(1) fl by auto
      next
        case nF: False
        from cv False nF show ?thesis by (simp only: if_False option.distinct)
      qed
    qed
  next
    case str
    with assms show ?thesis by (auto simp: coercedDefault_def flagFromType_def Let_def)
  next
    case dur
    with assms show ?thesis
      by (auto simp: coercedDefault_def flagFromType_def Let_def split: prod.splits option.splits)
  next
    case ints
    show ?thesis
    proof (cases "?d = []")
      case True
      with ints assms show ?thesis by (auto simp: coercedDefault_def flagFromType_def Let_def)
    next
      case False
      let ?ok = "\<lambda>w. case intLiteral w of
                      Some i \<Rightarrow> - (2 ^ 63) \<le> i \<and> i < 2 ^ 63 | None \<Rightarrow> False"
      let ?val = "\<lambda>w. case intLiteral w of Some i \<Rightarrow> (word_of_int i :: int64) | None \<Rightarrow> 0"
      from ints False assms(2) have all: "list_all ?ok (Split ?d CHR '','')"
        and v: "v = IntSliceVal (map ?val (Split ?d CHR '',''))"
        by (auto simp: coercedDefault_def split: if_splits)
      have "fst (Atoi w) = ?val w" if "w \<in> set (Split ?d CHR '','')" for w
      proof -
        from all that have "?ok w" by (simp add: list_all_iff)
        then obtain i where i: "intLiteral w = Some i" "- (2 ^ 63) \<le> i" "i < 2 ^ 63"
          by (auto split: option.splits)
        from Atoi_literal[OF i] i(1) show ?thesis by simp
      qed
      then have "map (\<lambda>s. fst (Atoi s)) (Split ?d CHR '','') = map ?val (Split ?d CHR '','')"
        by simp
      with ints False assms(1) v show ?thesis by (auto simp: flagFromType_def Let_def)
    qed
  next
    case strs
    with assms show ?thesis by (auto simp: coercedDefault_def flagFromType_def Let_def)
  next
    case none
    with assms(2) show ?thesis by (auto simp: coercedDefault_def supportedTypes_def)
  qed
qed


text \<open>
  C1. Take a struct whose field names are distinct, as those of a Go struct are, whose
  tags all parse and whose eligible fields all have a supported type. Then \<^verbatim>\<open>Flags\<close>
  returns a new instance, and for every eligible field, with the flag that
  \<^verbatim>\<open>flagFromType\<close> makes of it: when the context holds the default of that flag under
  the flag's name, the field of the new instance holds that default; and when the
  default literal is a valid literal of the field's type, the field holds the value the
  literal stands for. For a duration the flag, the context and the field all hold the
  number of nanoseconds. \<^verbatim>\<open>strconv.ParseFloat\<close> at 32 bits is taken to return a value that
  the conversion to \<^verbatim>\<open>float32\<close> leaves as it is, as its documentation says.
\<close>

theorem flags_roundtrip:
  assumes "deref obj = StructObj tn flds"
    and "distinct (map (\<lambda>f. fieldName (fst f)) flds)"
    and "\<forall>f \<in> set flds. fieldOK (fst f)"
    and "\<forall>s. float32 L (fst (ParseFloat L s 32)) = fst (ParseFloat L s 32)"
  shows "\<exists>res. Flags L obj c = Inr res \<and> length res = length flds \<and>
     (\<forall>i < length flds. eligible (fst (flds ! i)) \<longrightarrow>
        (\<exists>m fl. parseMeta (fieldTag (fst (flds ! i))) = Inr m \<and>
                flagFromType L (fst (flds ! i)) m = Inr fl \<and>
                (preloaded c fl \<longrightarrow>
                   res ! i = (fieldName (fst (flds ! i)), defaultValue fl) \<and>
                   (\<forall>v. coercedDefault L (fieldType (fst (flds ! i)))
                          (Trim (meta_Default m) [quote]) = Some v \<longrightarrow>
                        res ! i = (fieldName (fst (flds ! i)), v)))))"
proof -
  let ?fts = "map fst flds"
  let ?init = "map (\<lambda>ft. (fieldName ft, zeroValue (fieldType ft) :: ('a, 'b) val)) ?fts"
  have f: "Flags L obj c = Flags_loop L c ?init ?fts"
    by (rule Flags_struct[OF assms(1)])
  from assms(3) have ok: "\<forall>f \<in> set ?fts. fieldOK f" by simp
  from Flags_loop_returns[OF ok, of L c ?init] obtain res where
    l: "Flags_loop L c ?init ?fts = Inr res" by blast
  have keys: "map fst res = map fieldName ?fts"
    using Flags_loop_frame[OF l, THEN conjunct1] by (simp add: comp_def)
  then have len: "length res = length flds" by (metis length_map)
  have dist: "distinct (map fieldName ?fts)" using assms(2) by (simp add: comp_def)
  have sub: "fieldName ` set ?fts \<subseteq> fst ` set ?init" by force
  note vals = Flags_loop_values[OF l dist sub, THEN conjunct2, rule_format]
  have field: "\<exists>m fl. parseMeta (fieldTag (fst (flds ! i))) = Inr m \<and>
                flagFromType L (fst (flds ! i)) m = Inr fl \<and>
                (preloaded c fl \<longrightarrow>
                   res ! i = (fieldName (fst (flds ! i)), defaultValue fl) \<and>
                   (\<forall>v. coercedDefault L (fieldType (fst (flds ! i)))
                          (Trim (meta_Default m) [quote]) = Some v \<longrightarrow>
                        res ! i = (fieldName (fst (flds ! i)), v)))"
    if i: "i < length flds" and e: "eligible (fst (flds ! i))" for i
  proof -
    let ?ft = "fst (flds ! i)"
    from i have mem: "?ft \<in> set ?fts" by simp
    with ok have fok: "fieldOK ?ft" by blast
    then obtain m where m: "parseMeta (fieldTag ?ft) = Inr m" using fieldOK_parse by blast
    from fieldOK_flag[OF fok e m] obtain fl where fl: "flagFromType L ?ft m = Inr fl" by blast
    have k: "fst (res ! i) = fieldName ?ft"
    proof -
      from i len have "fst (res ! i) = map fst res ! i" by simp
      also have "\<dots> = fieldName ?ft" using i by (simp add: keys)
      finally show ?thesis .
    qed
    have dres: "distinct (map fst res)" using keys dist by simp
    from i len have "res ! i \<in> set res" by simp
    then have "(fst (res ! i), snd (res ! i)) \<in> set res" by simp
    with dres have look: "map_of res (fieldName ?ft) = Some (snd (res ! i))"
      by (simp add: k[symmetric])
    have rt: "res ! i = (fieldName ?ft, defaultValue fl)" if p: "preloaded c fl"
    proof -
      from vals[OF mem, of m fl] e m fl
      have "map_of res (fieldName ?ft) = contextValue L c (fieldType ?ft) (GetName fl)"
        by blast
      also have "\<dots> = Some (defaultValue fl)"
        by (rule roundtrip_value[OF fl p assms(4)])
      finally have "snd (res ! i) = defaultValue fl" using look by simp
      with k show ?thesis by (cases "res ! i") simp
    qed
    have co: "res ! i = (fieldName ?ft, v)"
      if p: "preloaded c fl"
        and v: "coercedDefault L (fieldType ?ft) (Trim (meta_Default m) [quote]) = Some v" for v
      using rt[OF p] coercedDefault_flag[OF fl v] by simp
    from m fl rt co show ?thesis by blast
  qed
  from f l len field show ?thesis by simp
qed


lemma ev_ok_serve:
  "fieldOK counterField" "fieldOK verboseField" "fieldOK timeoutField" "fieldOK tagsField"
  by (simp_all add: fieldOK_def ev_counter_meta ev_verbose_meta ev_timeout_meta ev_tags_meta
      eligible_def HasPrefix_def sample_fields supportedTypes_def)

lemma ev_coerced:
  "(coercedDefault sampleLib ''int'' ''8080'' :: (int, unit) val option) = Some (IntVal 8080)"
  "(coercedDefault sampleLib ''bool'' ''true'' :: (int, unit) val option) = Some (BoolVal True)"
  "(coercedDefault sampleLib ''time.Duration'' ''5s'' :: (int, unit) val option) =
     Some (IntVal 5000000000)"
  "(coercedDefault sampleLib ''[]string'' ''a,b'' :: (int, unit) val option) =
     Some (StringSliceVal [''a'', ''b''])"
  by (simp_all add: coercedDefault_def intLiteral_def isDecimal_def decimalValue_def
      digitTable_def sampleLib_def ev_parse)

lemma ev_preloaded:
  "preloaded sampleContext (IntFlag ''port'' ''PORT'' 8080 False [])"
  "preloaded sampleContext (BoolTFlag ''verbose'' ''VERBOSE'' True [])"
  "preloaded sampleContext (DurationFlag ''idle-timeout'' ''IDLE_TIMEOUT'' 5000000000 False [])"
  "preloaded sampleContext (StringSliceFlag ''labels'' ''LABELS'' (Some [''a'', ''b'']) False [])"
  by (simp_all add: sampleContext_def)

theorem flags_roundtrip_witness:
  "deref (Pointer (StructObj ''Serve'' serveFields)) = StructObj ''Serve'' serveFields
   \<and> distinct (map (\<lambda>f. fieldName (fst f)) serveFields)
   \<and> fieldOK commandField \<and> fieldOK portField \<and> fieldOK counterField
   \<and> fieldOK verboseField \<and> fieldOK timeoutField \<and> fieldOK tagsField
   \<and> (\<forall>s. float32 sampleLib (fst (ParseFloat sampleLib s 32)) = fst (ParseFloat sampleLib s 32))
   \<and> preloaded sampleContext (IntFlag ''port'' ''PORT'' 8080 False [])
   \<and> preloaded sampleContext (BoolTFlag ''verbose'' ''VERBOSE'' True [])
   \<and> preloaded sampleContext (DurationFlag ''idle-timeout'' ''IDLE_TIMEOUT'' 5000000000 False [])
   \<and> preloaded sampleContext (StringSliceFlag ''labels'' ''LABELS'' (Some [''a'', ''b'']) False [])
   \<and> (coercedDefault sampleLib ''int'' ''8080'' :: (int, unit) val option) = Some (IntVal 8080)
   \<and> (coercedDefault sampleLib ''bool'' ''true'' :: (int, unit) val option) = Some (BoolVal True)
   \<and> (coercedDefault sampleLib ''time.Duration'' ''5s'' :: (int, unit) val option) =
        Some (IntVal 5000000000)
   \<and> (coercedDefault sampleLib ''[]string'' ''a,b'' :: (int, unit) val option) =
        Some (StringSliceVal [''a'', ''b''])
   \<and> (\<exists>res. Flags sampleLib (Pointer (StructObj ''Serve'' serveFields)) sampleContext = Inr res
          \<and> length res = 6
          \<and> res ! 1 = (''FlagPort'', IntVal 8080)
          \<and> res ! 3 = (''FlagVerbose'', BoolVal True)
          \<and> res ! 4 = (''FlagIdleTimeout'', IntVal 5000000000)
          \<and> res ! 5 = (''FlagTags'', StringSliceVal [''a'', ''b'']))"
proof -
  have d: "deref (Pointer (StructObj ''Serve'' serveFields)) = StructObj ''Serve'' serveFields"
    by simp
  have dist: "distinct (map (\<lambda>f. fieldName (fst f)) serveFields)"
    by (simp add: serveFields_def sample_fields)
  have ok: "\<forall>f \<in> set serveFields. fieldOK (fst f)"
    by (simp add: serveFields_def ev_ok ev_ok_serve)
  have fl: "\<forall>s. float32 sampleLib (fst (ParseFloat sampleLib s 32)) = fst (ParseFloat sampleLib s 32)"
    by (simp add: sampleLib_def)
  from flags_roundtrip[OF d dist ok fl, of sampleContext]
  obtain res :: "(string \<times> (int, unit) val) list" where
    r: "Flags sampleLib (Pointer (StructObj ''Serve'' serveFields)) sampleContext = Inr res"
    and len: "length res = length serveFields"
    and all: "\<forall>i < length serveFields. eligible (fst (serveFields ! i)) \<longrightarrow>
        (\<exists>m fl. parseMeta (fieldTag (fst (serveFields ! i))) = Inr m \<and>
                flagFromType sampleLib (fst (serveFields ! i)) m = Inr fl \<and>
                (preloaded sampleContext fl \<longrightarrow>
                   res ! i = (fieldName (fst (serveFields ! i)), defaultValue fl) \<and>
                   (\<forall>v. coercedDefault sampleLib (fieldType (fst (serveFields ! i)))
                          (Trim (meta_Default m) [quote]) = Some v \<longrightarrow>
                        res ! i = (fieldName (fst (serveFields ! i)), v))))"
    by blast
  have step: "res ! i = (fieldName ft, v)"
    if "i < length serveFields" "fst (serveFields ! i) = ft" "eligible ft"
      "parseMeta (fieldTag ft) = Inr m" "flagFromType sampleLib ft m = Inr fl"
      "preloaded sampleContext fl"
      "coercedDefault sampleLib (fieldType ft) (Trim (meta_Default m) [quote]) = Some v"
    for i ft m fl v
  proof -
    from all[rule_format, OF that(1)] that(2,3) obtain m' fl' where
      a: "parseMeta (fieldTag ft) = Inr m'" "flagFromType sampleLib ft m' = Inr fl'"
      and b: "preloaded sampleContext fl' \<longrightarrow>
                   res ! i = (fieldName ft, defaultValue fl') \<and>
                   (\<forall>v. coercedDefault sampleLib (fieldType ft)
                          (Trim (meta_Default m') [quote]) = Some v \<longrightarrow>
                        res ! i = (fieldName ft, v))"
      by auto
    from a that(4,5) have "m' = m" "fl' = fl" by simp_all
    with b that(6,7) show ?thesis by blast
  qed
  have el: "eligible portField" "eligible verboseField" "eligible timeoutField" "eligible tagsField"
    by (simp_all add: eligible_def sample_fields HasPrefix_def)
  have ix: "1 < length serveFields" "3 < length serveFields" "4 < length serveFields"
    "5 < length serveFields"
    "fst (serveFields ! 1) = portField" "fst (serveFields ! 3) = verboseField"
    "fst (serveFields ! 4) = timeoutField" "fst (serveFields ! 5) = tagsField"
    by (simp_all add: serveFields_def)
  have tr: "Trim (meta_Default (empty_commandMetadata\<lparr>meta_Default := ''8080''\<rparr>)) [quote] = ''8080''"
    "Trim (meta_Default (empty_commandMetadata\<lparr>meta_Default := ''true'', meta_Hidden := True\<rparr>)) [quote] = ''true''"
    "Trim (meta_Default (empty_commandMetadata\<lparr>meta_Default := ''5s''\<rparr>)) [quote] = ''5s''"
    "Trim (meta_Default (empty_commandMetadata\<lparr>meta_Name := ''Labels'',
        meta_Default := [quote] @ ''a,b'' @ [quote]\<rparr>)) [quote] = ''a,b''"
    by (simp_all add: Trim_def empty_commandMetadata_def)
  have c: "coercedDefault sampleLib (fieldType portField)
        (Trim (meta_Default (empty_commandMetadata\<lparr>meta_Default := ''8080''\<rparr>)) [quote]) =
        Some (IntVal 8080 :: (int, unit) val)"
    "coercedDefault sampleLib (fieldType verboseField)
        (Trim (meta_Default (empty_commandMetadata\<lparr>meta_Default := ''true'', meta_Hidden := True\<rparr>)) [quote]) =
        Some (BoolVal True :: (int, unit) val)"
    "coercedDefault sampleLib (fieldType timeoutField)
        (Trim (meta_Default (empty_commandMetadata\<lparr>meta_Default := ''5s''\<rparr>)) [quote]) =
        Some (IntVal 5000000000 :: (int, unit) val)"
    "coercedDefault sampleLib (fieldType tagsField)
        (Trim (meta_Default (empty_commandMetadata\<lparr>meta_Name := ''Labels'',
           meta_Default := [quote] @ ''a,b'' @ [quote]\<rparr>)) [quote]) =
        Some (StringSliceVal [''a'', ''b''] :: (int, unit) val)"
    by (simp_all only: tr sample_fields ev_coerced)
  have 1: "res ! 1 = (''FlagPort'', IntVal 8080)"
    using step[OF ix(1) ix(5) el(1) ev_port_meta ev_flags(1) ev_preloaded(1) c(1)]
    by (simp add: sample_fields)
  have 3: "res ! 3 = (''FlagVerbose'', BoolVal True)"
    using step[OF ix(2) ix(6) el(2) ev_verbose_meta ev_flags(2) ev_preloaded(2) c(2)]
    by (simp add: sample_fields)
  have 4: "res ! 4 = (''FlagIdleTimeout'', IntVal 5000000000)"
    using step[OF ix(3) ix(7) el(3) ev_timeout_meta ev_flags(3) ev_preloaded(3) c(3)]
    by (simp add: sample_fields)
  have 5: "res ! 5 = (''FlagTags'', StringSliceVal [''a'', ''b''])"
    using step[OF ix(4) ix(8) el(4) ev_tags_meta ev_flags(4) ev_preloaded(4) c(4)]
    by (simp add: sample_fields)
  from len have l6: "length res = 6" by (simp add: serveFields_def)
  from r l6 1 3 4 5 have ex: "\<exists>res. Flags sampleLib (Pointer (StructObj ''Serve'' serveFields)) sampleContext = Inr res
          \<and> length res = 6
          \<and> res ! 1 = (''FlagPort'', IntVal 8080)
          \<and> res ! 3 = (''FlagVerbose'', BoolVal True)
          \<and> res ! 4 = (''FlagIdleTimeout'', IntVal 5000000000)
          \<and> res ! 5 = (''FlagTags'', StringSliceVal [''a'', ''b''])"
    by blast
  show ?thesis
    by (intro conjI) (rule d dist ev_ok ev_ok_serve fl ev_preloaded ev_coerced ex)+
qed


subsection \<open>The names that \<^verbatim>\<open>flagFromType\<close> and \<^verbatim>\<open>Flags\<close> use\<close>

lemma agree_contextValue:
  "agree c c' n \<Longrightarrow> contextValue L c t n = contextValue L c' t n"
  by (simp add: agree_def contextValue_def)

lemma getCommand_Inr:
  assumes "getCommand ft fv = Inr cmd"
  shows "fieldName ft = ''Command'' \<and> (\<exists>m. parseMeta (fieldTag ft) = Inr m)"
  using assms
  by (cases fv; cases "parseMeta (fieldTag ft)") (auto simp: getCommand_def split: if_splits)

lemma loops_agree:
  "commandFromObject_loop L cmd fts = Inr cmd' \<Longrightarrow>
   set (cmd_Flags cmd) \<subseteq> set (cmd_Flags cmd') \<and>
   (\<exists>res'. Flags_loop L c (res :: (string \<times> ('f, 'a) val) list) fts = Inr res') \<and>
   ((\<forall>fl \<in> set (cmd_Flags cmd'). agree c c' (GetName fl)) \<longrightarrow>
      Flags_loop L c res fts = Flags_loop L c' res fts)"
proof (induction fts arbitrary: cmd res)
  case Nil
  then show ?case by simp
next
  case (Cons ft fts)
  from Cons.prems obtain m where m: "parseMeta (fieldTag ft) = Inr m"
    by (cases "parseMeta (fieldTag ft)") simp_all
  show ?case
  proof (cases "HasPrefix (fieldName ft) ''Flag''")
    case True
    with Cons.prems m obtain fl where fl: "flagFromType L ft m = Inr fl"
      by (cases "flagFromType L ft m") simp_all
    with Cons.prems m True
    have l: "commandFromObject_loop L (cmd\<lparr>cmd_Flags := cmd_Flags cmd @ [fl]\<rparr>) fts = Inr cmd'"
      by simp
    have "fieldType ft \<in> set supportedTypes"
      using fl flagFromType_unsupported[of ft L m] by auto
    then obtain v :: "('f, 'a) val" where
      v: "contextValue L c (fieldType ft) (GetName fl) = Some v"
      using contextValue_supported by blast
    note ih = Cons.IH[OF l, of "setFieldByName (fieldName ft) v res"]
    from ih have sub: "set (cmd_Flags cmd) \<subseteq> set (cmd_Flags cmd')" and
      mem: "fl \<in> set (cmd_Flags cmd')" by auto
    have ex: "\<exists>res'. Flags_loop L c res (ft # fts) = Inr res'"
      using ih m True fl v by simp
    have ag: "Flags_loop L c res (ft # fts) = Flags_loop L c' res (ft # fts)"
      if a: "\<forall>fl \<in> set (cmd_Flags cmd'). agree c c' (GetName fl)"
    proof -
      from a mem have g: "agree c c' (GetName fl)" by blast
      have "(contextValue L c' (fieldType ft) (GetName fl) :: ('f, 'a) val option) = Some v"
        using v by (simp add: agree_contextValue[OF g, symmetric])
      with ih a m True fl v show ?thesis by simp
    qed
    from sub ex ag show ?thesis by blast
  next
    case False
    with Cons.prems m have l: "commandFromObject_loop L cmd fts = Inr cmd'" by simp
    from Cons.IH[OF l, of res] m False show ?thesis by simp
  qed
qed


lemma Flags_field_value:
  assumes "deref obj = StructObj tn flds"
    and "distinct (map (\<lambda>f. fieldName (fst f)) flds)"
    and "Flags L obj c = Inr (res :: (string \<times> ('f, 'a) val) list)"
    and "i < length flds"
    and "eligible (fst (flds ! i))"
    and "parseMeta (fieldTag (fst (flds ! i))) = Inr m"
    and "flagFromType L (fst (flds ! i)) m = Inr fl"
  shows "fst (res ! i) = fieldName (fst (flds ! i)) \<and>
         Some (snd (res ! i)) = contextValue L c (fieldType (fst (flds ! i))) (GetName fl)"
proof -
  let ?fts = "map fst flds"
  let ?ft = "fst (flds ! i)"
  let ?init = "map (\<lambda>ft. (fieldName ft, zeroValue (fieldType ft) :: ('f, 'a) val)) ?fts"
  have l: "Flags_loop L c ?init ?fts = Inr res"
    using assms(3) by (simp add: Flags_struct[OF assms(1)])
  have keys: "map fst res = map fieldName ?fts"
    using Flags_loop_frame[OF l, THEN conjunct1] by (simp add: comp_def)
  then have len: "length res = length flds" by (metis length_map)
  have dist: "distinct (map fieldName ?fts)" using assms(2) by (simp add: comp_def)
  have sub: "fieldName ` set ?fts \<subseteq> fst ` set ?init" by force
  from assms(4) have mem: "?ft \<in> set ?fts" by simp
  have k: "fst (res ! i) = fieldName ?ft"
  proof -
    from assms(4) len have "fst (res ! i) = map fst res ! i" by simp
    also have "\<dots> = fieldName ?ft" using assms(4) by (simp add: keys)
    finally show ?thesis .
  qed
  have dres: "distinct (map fst res)" using keys dist by simp
  from assms(4) len have "res ! i \<in> set res" by simp
  then have "(fst (res ! i), snd (res ! i)) \<in> set res" by simp
  with dres have look: "map_of res (fieldName ?ft) = Some (snd (res ! i))"
    by (simp add: k[symmetric])
  from Flags_loop_values[OF l dist sub, THEN conjunct2, rule_format, OF mem, of m fl] assms(5-7)
  have "map_of res (fieldName ?ft) = contextValue L c (fieldType ?ft) (GetName fl)"
    by blast
  with look k show ?thesis by simp
qed

text \<open>
  C2. The name of a flag and of its environment variable are functions of the name of
  the field and of the \<^verbatim>\<open>name\<close> of its tag alone: \<^verbatim>\<open>flagFromType\<close> gives two fields that
  agree on both the same names, whatever their types and defaults, and the names are
  those of \<open>flagName\<close> and \<open>envName\<close>. \<^verbatim>\<open>Flags\<close> reads the context under that same name: the
  value it stores into an eligible field is what the reader of the field's type answers
  for the name that \<^verbatim>\<open>flagFromType\<close> gave the flag of the field. So where
  \<^verbatim>\<open>commandFromObject\<close> returns a command, \<^verbatim>\<open>Flags\<close> returns too, and two contexts that
  agree on the names of the flags of the command give the same result.
\<close>

theorem flag_names_agree:
  "(flagFromType L ft m = Inr fl \<and> flagFromType L ft' m' = Inr fl' \<and>
      fieldName ft = fieldName ft' \<and> meta_Name m = meta_Name m' \<longrightarrow>
        GetName fl = GetName fl' \<and> EnvVar fl = EnvVar fl')
   \<and> (flagFromType L ft m = Inr fl \<longrightarrow>
        GetName fl = flagName L (fieldName ft) (meta_Name m) \<and>
        EnvVar fl = envName L (GetName fl))
   \<and> (deref obj = StructObj tn flds \<and> distinct (map (\<lambda>f. fieldName (fst f)) flds) \<and>
       Flags L obj c = Inr res \<longrightarrow>
        (\<forall>i < length flds. \<forall>mi fli.
            eligible (fst (flds ! i)) \<and> parseMeta (fieldTag (fst (flds ! i))) = Inr mi \<and>
            flagFromType L (fst (flds ! i)) mi = Inr fli \<longrightarrow>
            fst (res ! i) = fieldName (fst (flds ! i)) \<and>
            Some (snd (res ! i)) =
              contextValue L c (fieldType (fst (flds ! i)))
                (flagName L (fieldName (fst (flds ! i))) (meta_Name mi)) \<and>
            GetName fli = flagName L (fieldName (fst (flds ! i))) (meta_Name mi)))
   \<and> (commandFromObject L (obj :: ('f, 'a) object) = Inr cmd \<longrightarrow>
        (\<exists>r. Flags L obj c = Inr r) \<and>
        ((\<forall>fl \<in> set (cmd_Flags cmd). agree c c' (GetName fl)) \<longrightarrow>
           Flags L obj c = Flags L obj c'))"
proof (intro conjI impI allI)
  assume a: "flagFromType L ft m = Inr fl \<and> flagFromType L ft' m' = Inr fl' \<and>
      fieldName ft = fieldName ft' \<and> meta_Name m = meta_Name m'"
  from a flagFromType_name[of L ft m fl] flagFromType_name[of L ft' m' fl']
  show "GetName fl = GetName fl'" "EnvVar fl = EnvVar fl'" by simp_all
next
  assume "flagFromType L ft m = Inr fl"
  from flagFromType_name[OF this]
  show "GetName fl = flagName L (fieldName ft) (meta_Name m)" "EnvVar fl = envName L (GetName fl)"
    by simp_all
next
  fix i mi fli
  assume s: "deref obj = StructObj tn flds \<and> distinct (map (\<lambda>f. fieldName (fst f)) flds) \<and>
       Flags L obj c = Inr res"
    and i: "i < length flds"
    and e: "eligible (fst (flds ! i)) \<and> parseMeta (fieldTag (fst (flds ! i))) = Inr mi \<and>
            flagFromType L (fst (flds ! i)) mi = Inr fli"
  from s e have fv: "fst (res ! i) = fieldName (fst (flds ! i)) \<and>
         Some (snd (res ! i)) = contextValue L c (fieldType (fst (flds ! i))) (GetName fli)"
    by (intro Flags_field_value[OF _ _ _ i]) blast+
  from e flagFromType_name[of L "fst (flds ! i)" mi fli]
  have n: "GetName fli = flagName L (fieldName (fst (flds ! i))) (meta_Name mi)" by simp
  from fv show "fst (res ! i) = fieldName (fst (flds ! i))" by blast
  from fv n show "Some (snd (res ! i)) =
              contextValue L c (fieldType (fst (flds ! i)))
                (flagName L (fieldName (fst (flds ! i))) (meta_Name mi))" by simp
  from n show "GetName fli = flagName L (fieldName (fst (flds ! i))) (meta_Name mi)" .
next
  assume a: "commandFromObject L obj = Inr cmd"
  from commandFromObject_struct[OF a] obtain tn ft0 fv0 rest cmd0 where
    d: "deref obj = StructObj tn ((ft0, fv0) # rest)" and
    g: "getCommand ft0 fv0 = Inr cmd0" and
    l: "commandFromObject_loop L (cmd0\<lparr>cmd_Name := ToLower L tn\<rparr>) (map fst rest) = Inr cmd"
    by blast
  from getCommand_Inr[OF g] obtain m0 where
    n0: "fieldName ft0 = ''Command''" and m0: "parseMeta (fieldTag ft0) = Inr m0" by blast
  have ne: "\<not> HasPrefix (fieldName ft0) ''Flag''" by (simp add: n0 HasPrefix_def)
  let ?init = "map (\<lambda>ft. (fieldName ft, zeroValue (fieldType ft) :: ('f, 'a) val))
      (map fst ((ft0, fv0) # rest))"
  have f: "Flags L obj k = Flags_loop L k ?init (map fst rest)" for k
    using Flags_struct[OF d, of L k] m0 ne by simp
  note la = loops_agree[OF l, of c ?init c']
  from la f show "\<exists>r. Flags L obj c = Inr r" by simp
  {
    assume "\<forall>fl \<in> set (cmd_Flags cmd). agree c c' (GetName fl)"
    with la f show "Flags L obj c = Flags L obj c'" by simp
  }
qed

theorem flag_names_agree_witness:
  "flagFromType sampleLib portField (empty_commandMetadata\<lparr>meta_Default := ''8080''\<rparr>) =
     Inr (IntFlag ''port'' ''PORT'' 8080 False [])
   \<and> flagFromType sampleLib tagsField
       (empty_commandMetadata\<lparr>meta_Name := ''Labels'', meta_Default := [quote] @ ''a,b'' @ [quote]\<rparr>) =
     Inr (StringSliceFlag ''labels'' ''LABELS'' (Some [''a'', ''b'']) False [])
   \<and> GetName (StringSliceFlag ''labels'' ''LABELS'' (Some [''a'', ''b'']) False [] :: int Flag) =
       flagName sampleLib (fieldName tagsField) ''Labels''
   \<and> EnvVar (StringSliceFlag ''labels'' ''LABELS'' (Some [''a'', ''b'']) False [] :: int Flag) =
       envName sampleLib ''labels''
   \<and> commandFromObject sampleLib (StructObj ''Serve'' serveFields) = Inr serveCommand
   \<and> agree sampleContext otherContext ''port'' \<and> agree sampleContext otherContext ''verbose''
   \<and> agree sampleContext otherContext ''idle-timeout''
   \<and> agree sampleContext otherContext ''labels''
   \<and> ctx_Int sampleContext ''counter'' \<noteq> ctx_Int otherContext ''counter''
   \<and> (\<exists>res. Flags sampleLib (StructObj ''Serve'' serveFields) sampleContext = Inr res)
   \<and> Flags sampleLib (StructObj ''Serve'' serveFields) sampleContext =
       Flags sampleLib (StructObj ''Serve'' serveFields) otherContext
   \<and> distinct (map (\<lambda>f. fieldName (fst f)) serveFields)
   \<and> eligible tagsField
   \<and> (Some (StringSliceVal [''a'', ''b'']) :: (int, unit) val option) =
       contextValue sampleLib sampleContext (fieldType tagsField)
         (flagName sampleLib (fieldName tagsField) ''Labels'')"
proof -
  let ?m = "empty_commandMetadata\<lparr>meta_Name := ''Labels'', meta_Default := [quote] @ ''a,b'' @ [quote]\<rparr>"
  let ?fl = "StringSliceFlag ''labels'' ''LABELS'' (Some [''a'', ''b'']) False [] :: int Flag"
  let ?res = "[(''Command'', ZeroOf ''cli.Command''), (''FlagPort'', IntVal 8080),
          (''Counter'', IntVal 0), (''FlagVerbose'', BoolVal True),
          (''FlagIdleTimeout'', IntVal 5000000000),
          (''FlagTags'', StringSliceVal [''a'', ''b''])] :: (string \<times> (int, unit) val) list"
  have ag: "agree sampleContext otherContext ''port''" "agree sampleContext otherContext ''verbose''"
    "agree sampleContext otherContext ''idle-timeout''" "agree sampleContext otherContext ''labels''"
    by (simp_all add: agree_def sampleContext_def otherContext_def)
  have ne: "ctx_Int sampleContext ''counter'' \<noteq> ctx_Int otherContext ''counter''"
    by (simp add: sampleContext_def otherContext_def)
  have all: "\<forall>fl \<in> set (cmd_Flags serveCommand). agree sampleContext otherContext (GetName fl)"
    using ag by (simp add: serveCommand_def)
  note t = flag_names_agree[where L = sampleLib and ft = tagsField and m = ?m and fl = ?fl
      and obj = "StructObj ''Serve'' serveFields" and cmd = serveCommand
      and c = sampleContext and c' = otherContext and tn = "''Serve''" and flds = serveFields
      and res = ?res]
  have mn: "meta_Name ?m = ''Labels''" by (simp add: empty_commandMetadata_def)
  have n: "GetName ?fl = flagName sampleLib (fieldName tagsField) ''Labels''"
    "EnvVar ?fl = envName sampleLib (GetName ?fl)"
    using t[THEN conjunct2, THEN conjunct1, rule_format, OF ev_flags(4)] mn by simp_all
  then have n2: "EnvVar ?fl = envName sampleLib ''labels''" by simp
  have dist: "distinct (map (\<lambda>f. fieldName (fst f)) serveFields)"
    by (simp add: serveFields_def sample_fields)
  have el: "eligible tagsField" by (simp add: eligible_def sample_fields HasPrefix_def)
  have ix: "5 < length serveFields" "fst (serveFields ! 5) = tagsField"
    by (simp_all add: serveFields_def)
  have h3: "deref (StructObj ''Serve'' serveFields) = StructObj ''Serve'' serveFields \<and>
      distinct (map (\<lambda>f. fieldName (fst f)) serveFields) \<and>
      Flags sampleLib (StructObj ''Serve'' serveFields) sampleContext = Inr ?res"
    using dist ev_serve_Flags by simp
  have h3i: "eligible (fst (serveFields ! 5)) \<and>
      parseMeta (fieldTag (fst (serveFields ! 5))) = Inr ?m \<and>
      flagFromType sampleLib (fst (serveFields ! 5)) ?m = Inr ?fl"
    using el ev_tags_meta ev_flags(4) by (simp only: ix(2) simp_thms)
  note v = t[THEN conjunct2, THEN conjunct2, THEN conjunct1, rule_format, OF h3 ix(1) h3i]
  have rd: "(Some (StringSliceVal [''a'', ''b'']) :: (int, unit) val option) =
       contextValue sampleLib sampleContext (fieldType tagsField)
         (flagName sampleLib (fieldName tagsField) ''Labels'')"
    using v[THEN conjunct2, THEN conjunct1] by (simp add: ix(2) mn)
  note r = t[THEN conjunct2, THEN conjunct2, THEN conjunct2, rule_format, OF ev_serve_command]
  from r have ex: "\<exists>res. Flags sampleLib (StructObj ''Serve'' serveFields) sampleContext = Inr res"
    by (rule conjunct1)
  from r all have eq: "Flags sampleLib (StructObj ''Serve'' serveFields) sampleContext =
       Flags sampleLib (StructObj ''Serve'' serveFields) otherContext"
    by blast
  from ev_flags(1) ev_flags(4) n(1) n2 ev_serve_command ag ne ex eq dist el rd show ?thesis
    by (intro conjI)
qed

end
